theory Spec2Isabelle
  imports Complex_Main "HOL-Library.AList"
begin

section \<open>Python values, documents and errors\<close>

text \<open>
  A Python float is an IEEE double: a finite value or one of the three specials.
  Every finite double is a real number, so \<open>Fin\<close> carries a real.
\<close>

datatype pyfloat = Fin real | PosInf | NegInf | NaN

text \<open>
  The values a field of a raw document can hold. \<open>PObjectId\<close> is the identity the
  store assigns, carried as the text that \<open>str\<close> prints for it.
\<close>

datatype pyval =
    PNone
  | PBool bool
  | PInt int
  | PFloat pyfloat
  | PStr string
  | PList "pyval list"
  | PObjectId string

text \<open>A raw document is a dict from field names to values; \<open>map_of\<close> is the lookup.\<close>

type_synonym doc = "(string \<times> pyval) list"

datatype exc_kind = TypeError | ValueError | OverflowError | ValidationError | StoreError

text \<open>An exception: its class and the text that \<open>str(e)\<close> gives.\<close>

datatype error = Error exc_kind string

fun str_exc :: "error \<Rightarrow> string" where
  "str_exc (Error k m) = m"

text \<open>
  The parts of the builtins \<open>float\<close> and \<open>str\<close> that depend on the rounding and
  printing of doubles are taken as parameters:
  \<^item> \<open>float_big_int i\<close>: \<open>float(i)\<close> for an integer beyond \<open>2^53\<close> in absolute value, the
    nearest double, \<open>None\<close> when it raises OverflowError;
  \<^item> \<open>float_str s\<close>: \<open>float(s)\<close> for a string, \<open>None\<close> when it raises ValueError;
  \<^item> \<open>str_float f\<close>: \<open>str(f)\<close> for a float;
  \<^item> \<open>str_list xs\<close>: \<open>str(xs)\<close> for a list.
\<close>

record builtins =
  float_big_int :: "int \<Rightarrow> pyfloat option"
  float_str :: "string \<Rightarrow> pyfloat option"
  str_float :: "pyfloat \<Rightarrow> string"
  str_list :: "pyval list \<Rightarrow> string"

subsection \<open>The builtins \<open>str\<close>, \<open>float\<close>, \<open>bool\<close> and \<open>dict.get\<close>\<close>

fun digit_char :: "nat \<Rightarrow> char" where
  "digit_char n = char_of (48 + n)"

fun str_nat :: "nat \<Rightarrow> string" where
  "str_nat n = (if n < 10 then [digit_char n] else str_nat (n div 10) @ [digit_char (n mod 10)])"

definition str_int :: "int \<Rightarrow> string" where
  "str_int i = (if i < 0 then CHR ''-'' # str_nat (nat (- i)) else str_nat (nat i))"

fun py_str :: "builtins \<Rightarrow> pyval \<Rightarrow> string" where
  "py_str py PNone = ''None''"
| "py_str py (PBool b) = (if b then ''True'' else ''False'')"
| "py_str py (PInt i) = str_int i"
| "py_str py (PFloat f) = str_float py f"
| "py_str py (PStr s) = s"
| "py_str py (PList xs) = str_list py xs"
| "py_str py (PObjectId h) = h"

fun py_float :: "builtins \<Rightarrow> pyval \<Rightarrow> error + pyfloat" where
  "py_float py PNone = Inl (Error TypeError ''float() argument must be a string or a real number'')"
| "py_float py (PBool b) = Inr (Fin (if b then 1 else 0))"
| "py_float py (PInt i) =
     (if \<bar>i\<bar> \<le> 2 ^ 53 then Inr (Fin (of_int i))
      else (case float_big_int py i of
              None \<Rightarrow> Inl (Error OverflowError ''int too large to convert to float'')
            | Some f \<Rightarrow> Inr f))"
| "py_float py (PFloat f) = Inr f"
| "py_float py (PStr s) =
     (case float_str py s of
        None \<Rightarrow> Inl (Error ValueError ''could not convert string to float'')
      | Some f \<Rightarrow> Inr f)"
| "py_float py (PList xs) = Inl (Error TypeError ''float() argument must be a string or a real number'')"
| "py_float py (PObjectId h) = Inl (Error TypeError ''float() argument must be a string or a real number'')"

fun float_truthy :: "pyfloat \<Rightarrow> bool" where
  "float_truthy (Fin r) = (r \<noteq> 0)"
| "float_truthy PosInf = True"
| "float_truthy NegInf = True"
| "float_truthy NaN = True"

fun py_bool :: "pyval \<Rightarrow> bool" where
  "py_bool PNone = False"
| "py_bool (PBool b) = b"
| "py_bool (PInt i) = (i \<noteq> 0)"
| "py_bool (PFloat f) = float_truthy f"
| "py_bool (PStr s) = (s \<noteq> [])"
| "py_bool (PList xs) = (xs \<noteq> [])"
| "py_bool (PObjectId h) = True"

text \<open>\<open>it.get(k, d)\<close>; the one-argument form \<open>it.get(k)\<close> has the default \<open>None\<close>.\<close>

definition get :: "doc \<Rightarrow> string \<Rightarrow> pyval \<Rightarrow> pyval" where
  "get it k d = (case map_of it k of None \<Rightarrow> d | Some v \<Rightarrow> v)"

text \<open>\<open>s or None\<close> for a string \<open>s\<close>.\<close>

definition or_None :: "string \<Rightarrow> pyval" where
  "or_None s = (if s \<noteq> [] then PStr s else PNone)"

text \<open>\<open>xs[:n]\<close>: a negative bound counts from the end, and both are clipped.\<close>

definition slice_to :: "'a list \<Rightarrow> int \<Rightarrow> 'a list" where
  "slice_to xs n = (if n < 0 then take (nat (int (length xs) + n)) xs else take (nat n) xs)"

section \<open>The product schema\<close>

text \<open>
  \<open>ProductOut\<close>, that is \<open>ProductIn\<close> with the field \<open>id\<close>. The fields \<open>id\<close> and
  \<open>image\<close> carry a prime, since HOL has constants of these names.
\<close>

record product =
  id' :: "string option"
  title :: string
  description :: "string option"
  price :: pyfloat
  category :: string
  in_stock :: bool
  image' :: "string option"
  brand :: "string option"
  colors :: "string list option"

text \<open>
  The dict \<open>obj\<close> that both listing functions build for one document. The entries
  \<open>price\<close> and \<open>in_stock\<close> are results of \<open>float\<close> and \<open>bool\<close>; the others are
  whatever the document holds.
\<close>

record obj =
  obj_id :: pyval
  obj_title :: pyval
  obj_description :: pyval
  obj_price :: pyfloat
  obj_category :: pyval
  obj_in_stock :: bool
  obj_image :: pyval
  obj_brand :: pyval
  obj_colors :: pyval

text \<open>
  Validation of one field by its declared type, as pydantic 2 does it on the values
  above: a value of the type is taken as it is, any other value is refused (\<open>None\<close>).
\<close>

fun as_str :: "pyval \<Rightarrow> string option" where
  "as_str (PStr s) = Some s"
| "as_str v = None"

fun as_opt_str :: "pyval \<Rightarrow> string option option" where
  "as_opt_str PNone = Some None"
| "as_opt_str (PStr s) = Some (Some s)"
| "as_opt_str v = None"

fun as_str_list :: "pyval list \<Rightarrow> string list option" where
  "as_str_list [] = Some []"
| "as_str_list (v # vs) =
     (case as_str v of
        None \<Rightarrow> None
      | Some s \<Rightarrow> (case as_str_list vs of None \<Rightarrow> None | Some ss \<Rightarrow> Some (s # ss)))"

fun as_opt_str_list :: "pyval \<Rightarrow> string list option option" where
  "as_opt_str_list PNone = Some None"
| "as_opt_str_list (PList vs) = (case as_str_list vs of None \<Rightarrow> None | Some ss \<Rightarrow> Some (Some ss))"
| "as_opt_str_list v = None"

text \<open>\<open>Field(..., ge=0)\<close>: the comparison \<open>price >= 0\<close>, false for NaN.\<close>

fun ge0 :: "pyfloat \<Rightarrow> bool" where
  "ge0 (Fin r) = (0 \<le> r)"
| "ge0 PosInf = True"
| "ge0 NegInf = False"
| "ge0 NaN = False"

definition validation_error :: error where
  "validation_error = Error ValidationError ''validation error for ProductOut''"

text \<open>\<open>ProductOut(**obj)\<close>: every field is validated, and one failure refuses the object.\<close>

definition ProductOut :: "obj \<Rightarrow> error + product" where
  "ProductOut ob =
     (case (as_opt_str (obj_id ob), as_str (obj_title ob), as_opt_str (obj_description ob),
            as_str (obj_category ob), as_opt_str (obj_image ob), as_opt_str (obj_brand ob),
            as_opt_str_list (obj_colors ob)) of
        (Some i, Some t, Some d, Some c, Some im, Some b, Some cs) \<Rightarrow>
          if ge0 (obj_price ob)
          then Inr \<lparr>id' = i, title = t, description = d, price = obj_price ob, category = c,
                    in_stock = obj_in_stock ob, image' = im, brand = b, colors = cs\<rparr>
          else Inl validation_error
      | _ \<Rightarrow> Inl validation_error)"

section \<open>Normalization\<close>

text \<open>The body of the loop of \<open>list_products\<close> for one document \<open>it\<close>.\<close>

definition list_normalize :: "builtins \<Rightarrow> doc \<Rightarrow> error + product" where
  "list_normalize py it =
     (case py_float py (get it ''price'' (PInt 0)) of
        Inl e \<Rightarrow> Inl e
      | Inr f \<Rightarrow>
          ProductOut
            \<lparr>obj_id = or_None (py_str py (get it ''_id'' (PStr ''''))),
             obj_title = get it ''title'' PNone,
             obj_description = get it ''description'' PNone,
             obj_price = f,
             obj_category = get it ''category'' (PStr ''shoes''),
             obj_in_stock = py_bool (get it ''in_stock'' (PBool True)),
             obj_image = get it ''image'' PNone,
             obj_brand = get it ''brand'' PNone,
             obj_colors = get it ''colors'' PNone\<rparr>)"

text \<open>The body of the loop of \<open>featured_products\<close> for one document \<open>it\<close>.\<close>

definition featured_normalize :: "builtins \<Rightarrow> doc \<Rightarrow> error + product" where
  "featured_normalize py it =
     (case py_float py (get it ''price'' (PInt 0)) of
        Inl e \<Rightarrow> Inl e
      | Inr f \<Rightarrow>
          ProductOut
            \<lparr>obj_id = or_None (py_str py (get it ''_id'' (PStr ''''))),
             obj_title = get it ''title'' PNone,
             obj_description = get it ''description'' PNone,
             obj_price = f,
             obj_category = get it ''category'' (PStr ''shoes''),
             obj_in_stock = py_bool (get it ''in_stock'' (PBool True)),
             obj_image = get it ''image'' PNone,
             obj_brand = get it ''brand'' PNone,
             obj_colors = get it ''colors'' PNone\<rparr>)"

text \<open>
  \<open>for it in items: out.append(body(it))\<close>, where an exception of the body ends the
  loop and the request.
\<close>

fun for_each :: "('a \<Rightarrow> error + 'b) \<Rightarrow> 'a list \<Rightarrow> 'b list \<Rightarrow> error + 'b list" where
  "for_each body [] out = Inr out"
| "for_each body (it # items) out =
     (case body it of Inl e \<Rightarrow> Inl e | Inr p \<Rightarrow> for_each body items (out @ [p]))"

section \<open>The sample catalogue\<close>

definition SAMPLE_PRODUCTS :: "doc list" where
  "SAMPLE_PRODUCTS =
    [[(''title'', PStr ''Air Nova Runner''),
      (''description'', PStr ''Featherlight daily trainer with responsive foam midsole.''),
      (''price'', PFloat (Fin 149)),
      (''category'', PStr ''running''),
      (''in_stock'', PBool True),
      (''image'', PStr ''https://images.unsplash.com/photo-1542291026-7eec264c27ff?q=80&w=1200&auto=format&fit=crop''),
      (''brand'', PStr ''Nova''),
      (''colors'', PList [PStr ''black'', PStr ''volt'', PStr ''white''])],
     [(''title'', PStr ''Atlas Court Pro''),
      (''description'', PStr ''Premium leather court shoe with heritage styling.''),
      (''price'', PFloat (Fin 179)),
      (''category'', PStr ''lifestyle''),
      (''in_stock'', PBool True),
      (''image'', PStr ''https://images.unsplash.com/photo-1525966222134-fcfa99b8ae77?q=80&w=1200&auto=format&fit=crop''),
      (''brand'', PStr ''Atlas''),
      (''colors'', PList [PStr ''white'', PStr ''navy'', PStr ''gold''])],
     [(''title'', PStr ''Storm Glide TR''),
      (''description'', PStr ''Trail-ready outsole and water-repellent upper.''),
      (''price'', PFloat (Fin 159)),
      (''category'', PStr ''trail''),
      (''in_stock'', PBool True),
      (''image'', PStr ''https://images.unsplash.com/photo-1608231387042-66d1773070a5?q=80&w=1200&auto=format&fit=crop''),
      (''brand'', PStr ''Storm''),
      (''colors'', PList [PStr ''slate'', PStr ''orange'', PStr ''charcoal''])],
     [(''title'', PStr ''Pulse React 2''),
      (''description'', PStr ''Max cushioning with dynamic energy return.''),
      (''price'', PFloat (Fin 199)),
      (''category'', PStr ''running''),
      (''in_stock'', PBool True),
      (''image'', PStr ''https://images.unsplash.com/photo-1603808033192-6aa3c0d03ff2?q=80&w=1200&auto=format&fit=crop''),
      (''brand'', PStr ''Pulse''),
      (''colors'', PList [PStr ''crimson'', PStr ''white'', PStr ''black''])]]"

section \<open>The store\<close>

text \<open>
  The module \<open>database\<close> (the handle \<open>db\<close>, \<open>create_document\<close>, \<open>get_documents\<close>) is
  not part of the sources at hand. The store is a state: whether the handle is set, the
  collections with their documents in insertion order, a counter for fresh identities, the
  attribute \<open>db.name\<close> when there is one, a schedule of failures and a log of the
  operations requested. Each operation on the store takes the head of \<open>faults\<close>:
  \<open>Some m\<close> makes it raise an exception with text \<open>m\<close>; an empty schedule is a store
  that answers every operation.
\<close>

datatype store_op =
    CountDocuments string doc
  | InsertOne string doc
  | Find string doc int
  | HasAttrName
  | GetAttrName
  | ListCollectionNames

record store =
  handle :: bool
  colls :: "(string \<times> doc list) list"
  next_id :: nat
  name :: "pyval option"
  faults :: "string option list"
  trace :: "store_op list"

definition docs :: "store \<Rightarrow> string \<Rightarrow> doc list" where
  "docs s c = (case map_of (colls s) c of None \<Rightarrow> [] | Some ds \<Rightarrow> ds)"

text \<open>One operation reaches the store: it is logged, and the schedule decides whether it raises.\<close>

definition store_call :: "store_op \<Rightarrow> store \<Rightarrow> (error + unit) \<times> store" where
  "store_call op s =
     (let s' = s\<lparr>trace := trace s @ [op]\<rparr>
      in case faults s of
           [] \<Rightarrow> (Inr (), s')
         | None # fs \<Rightarrow> (Inr (), s'\<lparr>faults := fs\<rparr>)
         | Some m # fs \<Rightarrow> (Inl (Error StoreError m), s'\<lparr>faults := fs\<rparr>))"

definition unavailable :: error where
  "unavailable = Error StoreError ''Database not available''"

text \<open>A filter matches a document that holds each of its entries.\<close>

definition matches :: "doc \<Rightarrow> doc \<Rightarrow> bool" where
  "matches filter_dict d = list_all (\<lambda>(k, v). map_of d k = Some v) filter_dict"

text \<open>
  Modelled from the spec: \<open>db[c].count_documents(filter)\<close> of the absent store module,
  the number of documents of the collection that match.
\<close>

definition count_documents :: "string \<Rightarrow> doc \<Rightarrow> store \<Rightarrow> (error + int) \<times> store" where
  "count_documents c filter_dict s =
     (case store_call (CountDocuments c filter_dict) s of
        (Inl e, s') \<Rightarrow> (Inl e, s')
      | (Inr u, s') \<Rightarrow> (Inr (int (length (filter (matches filter_dict) (docs s' c)))), s'))"

text \<open>
  Modelled from the spec: \<open>create_document(collection, doc) -> id\<close> of the absent store
  module. The store assigns a fresh identity, keeps the document under it at the end of
  the collection and returns the identity as text; the caller's document is not changed.
  Without a handle the store is unavailable, which is an exception.
\<close>

definition create_document :: "string \<Rightarrow> doc \<Rightarrow> store \<Rightarrow> (error + string) \<times> store" where
  "create_document c d s =
     (if \<not> handle s then (Inl unavailable, s)
      else case store_call (InsertOne c d) s of
             (Inl e, s') \<Rightarrow> (Inl e, s')
           | (Inr u, s') \<Rightarrow>
               (let i = str_nat (next_id s')
                in (Inr i,
                    s'\<lparr>colls := AList.update c (docs s' c @ [(''_id'', PObjectId i) # d]) (colls s'),
                       next_id := Suc (next_id s')\<rparr>)))"

text \<open>
  Modelled from the spec: \<open>get_documents(collection, filter, limit) -> sequence of
  documents\<close> of the absent store module: up to \<open>limit\<close> documents of the collection
  that match the filter, in the order of the collection. Without a handle the store is
  unavailable, which is an exception.
\<close>

definition get_documents :: "string \<Rightarrow> doc \<Rightarrow> int \<Rightarrow> store \<Rightarrow> (error + doc list) \<times> store" where
  "get_documents c filter_dict limit s =
     (if \<not> handle s then (Inl unavailable, s)
      else case store_call (Find c filter_dict limit) s of
             (Inl e, s') \<Rightarrow> (Inl e, s')
           | (Inr u, s') \<Rightarrow> (Inr (take (nat limit) (filter (matches filter_dict) (docs s' c))), s'))"

text \<open>
  Modelled from the spec: \<open>db.list_collection_names()\<close>, \<open>hasattr(db, 'name')\<close> and
  \<open>db.name\<close> of the absent store handle.
\<close>

definition list_collection_names :: "store \<Rightarrow> (error + string list) \<times> store" where
  "list_collection_names s =
     (case store_call ListCollectionNames s of
        (Inl e, s') \<Rightarrow> (Inl e, s')
      | (Inr u, s') \<Rightarrow> (Inr (map fst (colls s')), s'))"

definition hasattr_name :: "store \<Rightarrow> (error + bool) \<times> store" where
  "hasattr_name s =
     (case store_call HasAttrName s of
        (Inl e, s') \<Rightarrow> (Inl e, s')
      | (Inr u, s') \<Rightarrow> (Inr (name s' \<noteq> None), s'))"

definition getattr_name :: "store \<Rightarrow> (error + pyval) \<times> store" where
  "getattr_name s =
     (case store_call GetAttrName s of
        (Inl e, s') \<Rightarrow> (Inl e, s')
      | (Inr u, s') \<Rightarrow>
          (case name s' of
             None \<Rightarrow> (Inl (Error StoreError ''object has no attribute name''), s')
           | Some v \<Rightarrow> (Inr v, s')))"

section \<open>The seed guard\<close>

text \<open>\<open>for p in SAMPLE_PRODUCTS: create_document("product", p)\<close>\<close>

fun seed_loop :: "doc list \<Rightarrow> store \<Rightarrow> (error + unit) \<times> store" where
  "seed_loop [] s = (Inr (), s)"
| "seed_loop (p # ps) s =
     (case create_document ''product'' p s of
        (Inl e, s') \<Rightarrow> (Inl e, s')
      | (Inr i, s') \<Rightarrow> seed_loop ps s')"

text \<open>The body of the \<open>try\<close> of \<open>ensure_seed\<close>.\<close>

definition ensure_seed_try :: "store \<Rightarrow> (error + unit) \<times> store" where
  "ensure_seed_try s =
     (case count_documents ''product'' [] s of
        (Inl e, s') \<Rightarrow> (Inl e, s')
      | (Inr count, s') \<Rightarrow> if count = 0 then seed_loop SAMPLE_PRODUCTS s' else (Inr (), s'))"

definition ensure_seed :: "store \<Rightarrow> (error + unit) \<times> store" where
  "ensure_seed s =
     (if \<not> handle s then (Inr (), s)
      else case ensure_seed_try s of
             (Inl e, s') \<Rightarrow> (Inr (), s')
           | (Inr u, s') \<Rightarrow> (Inr (), s'))"

section \<open>The catalogue reader\<close>

text \<open>
  \<open>filter_dict = {}; if category: filter_dict["category"] = category\<close>, with \<open>cat\<close>
  for the argument \<open>category\<close>.
\<close>

definition filter_dict :: "string option \<Rightarrow> doc" where
  "filter_dict cat =
     (case cat of
        None \<Rightarrow> []
      | Some c \<Rightarrow> if c \<noteq> [] then [(''category'', PStr c)] else [])"

definition list_products ::
  "builtins \<Rightarrow> int \<Rightarrow> string option \<Rightarrow> store \<Rightarrow> (error + product list) \<times> store" where
  "list_products py limit cat s =
     (case ensure_seed s of
        (Inl e, s1) \<Rightarrow> (Inl e, s1)
      | (Inr u, s1) \<Rightarrow>
          (case get_documents ''product'' (filter_dict cat) limit s1 of
             (Inl e, s2) \<Rightarrow> (for_each (list_normalize py) (slice_to SAMPLE_PRODUCTS limit) [], s2)
           | (Inr items, s2) \<Rightarrow> (for_each (list_normalize py) items [], s2)))"

definition featured_products :: "builtins \<Rightarrow> store \<Rightarrow> (error + product list) \<times> store" where
  "featured_products py s =
     (case ensure_seed s of
        (Inl e, s1) \<Rightarrow> (Inl e, s1)
      | (Inr u, s1) \<Rightarrow>
          (case get_documents ''product'' [] 4 s1 of
             (Inl e, s2) \<Rightarrow> (for_each (featured_normalize py) (slice_to SAMPLE_PRODUCTS 4) [], s2)
           | (Inr items, s2) \<Rightarrow> (for_each (featured_normalize py) items [], s2)))"

section \<open>The diagnostic endpoint\<close>

text \<open>The marks of the status texts, as their UTF-8 bytes: U+2705, U+274C, and U+26A0 U+FE0F.\<close>

definition check_mark :: string where
  "check_mark = [CHR 0xE2, CHR 0x9C, CHR 0x85]"

definition cross_mark :: string where
  "cross_mark = [CHR 0xE2, CHR 0x9D, CHR 0x8C]"

definition warning_sign :: string where
  "warning_sign = [CHR 0xE2, CHR 0x9A, CHR 0xA0, CHR 0xEF, CHR 0xB8, CHR 0x8F]"

record response =
  backend :: pyval
  database :: pyval
  database_url :: pyval
  database_name :: pyval
  connection_status :: pyval
  collections :: pyval

definition initial_response :: response where
  "initial_response =
     \<lparr>backend = PStr (check_mark @ '' Running''),
      database = PStr (cross_mark @ '' Not Available''),
      database_url = PNone,
      database_name = PNone,
      connection_status = PStr ''Not Connected'',
      collections = PList []\<rparr>"

text \<open>The inner \<open>try\<close> of \<open>test_database\<close> with its handler.\<close>

definition test_collections :: "response \<Rightarrow> store \<Rightarrow> response \<times> store" where
  "test_collections r s =
     (case list_collection_names s of
        (Inl e, s') \<Rightarrow>
          (r\<lparr>database := PStr (warning_sign @ ''  Connected but Error: '' @ slice_to (str_exc e) 50)\<rparr>, s')
      | (Inr cs, s') \<Rightarrow>
          (r\<lparr>collections := PList (map PStr (slice_to cs 10)),
              database := PStr (check_mark @ '' Connected & Working'')\<rparr>, s'))"

text \<open>
  The body of the outer \<open>try\<close>: the exception that leaves it, if any, with the response
  as it stands at that point.
\<close>

definition test_try :: "response \<Rightarrow> store \<Rightarrow> (error + unit) \<times> response \<times> store" where
  "test_try r s =
     (if handle s then
        (let r1 = r\<lparr>database := PStr (check_mark @ '' Available''),
                     database_url := PStr (check_mark @ '' Configured'')\<rparr>
         in case hasattr_name s of
              (Inl e, s1) \<Rightarrow> (Inl e, r1, s1)
            | (Inr has, s1) \<Rightarrow>
                (case (if has then getattr_name s1
                       else (Inr (PStr (check_mark @ '' Connected'')), s1)) of
                   (Inl e, s2) \<Rightarrow> (Inl e, r1, s2)
                 | (Inr nm, s2) \<Rightarrow>
                     (case test_collections
                             (r1\<lparr>database_name := nm, connection_status := PStr ''Connected''\<rparr>) s2 of
                        (r3, s3) \<Rightarrow> (Inr (), r3, s3))))
      else (Inr (), r\<lparr>database := PStr (warning_sign @ ''  Available but not initialized'')\<rparr>, s))"

text \<open>\<open>os.getenv(k)\<close> as a condition: set and not empty.\<close>

definition env_set :: "(string \<Rightarrow> string option) \<Rightarrow> string \<Rightarrow> bool" where
  "env_set env k = (case env k of None \<Rightarrow> False | Some v \<Rightarrow> v \<noteq> [])"

definition test_database :: "(string \<Rightarrow> string option) \<Rightarrow> store \<Rightarrow> (error + response) \<times> store" where
  "test_database env s =
     (case test_try initial_response s of
        (res, r, s') \<Rightarrow>
          (let r' = (case res of
                       Inl e \<Rightarrow> r\<lparr>database := PStr (cross_mark @ '' Error: '' @ slice_to (str_exc e) 50)\<rparr>
                     | Inr u \<Rightarrow> r)
           in (Inr (r'\<lparr>database_url :=
                          PStr (if env_set env ''DATABASE_URL'' then check_mark @ '' Set''
                                else cross_mark @ '' Not Set''),
                        database_name :=
                          PStr (if env_set env ''DATABASE_NAME'' then check_mark @ '' Set''
                                else cross_mark @ '' Not Set'')\<rparr>), s')))"

section \<open>Products as Python values\<close>

text \<open>
  The Python value that an optional field of a product holds: \<open>None\<close> when it is absent,
  the string or the list of strings otherwise. These are the inverses of \<open>as_opt_str\<close>
  and \<open>as_opt_str_list\<close>.
\<close>

definition opt_str_val :: "string option \<Rightarrow> pyval" where
  "opt_str_val x = (case x of None \<Rightarrow> PNone | Some s \<Rightarrow> PStr s)"

definition opt_list_val :: "string list option \<Rightarrow> pyval" where
  "opt_list_val x = (case x of None \<Rightarrow> PNone | Some ss \<Rightarrow> PList (map PStr ss))"
section \<open>Validation and the loop\<close>

lemma as_str_Some: "as_str v = Some s \<longleftrightarrow> v = PStr s"
  by (cases v) auto

lemma as_opt_str_val: "as_opt_str (opt_str_val x) = Some x"
  by (cases x) (auto simp: opt_str_val_def)

lemma as_opt_str_Some: "as_opt_str v = Some x \<longleftrightarrow> v = opt_str_val x"
  by (cases v; cases x) (auto simp: opt_str_val_def)

lemma map_PStr_eq: "map PStr xs = map PStr ys \<longleftrightarrow> xs = ys"
  by (simp add: inj_def)

lemma as_str_list_map: "as_str_list (map PStr ss) = Some ss"
  by (induction ss) auto

lemma as_str_list_SomeD: "as_str_list vs = Some ss \<Longrightarrow> vs = map PStr ss"
  by (induction vs arbitrary: ss) (auto simp: as_str_Some split: option.splits)

lemma as_str_list_Some: "as_str_list vs = Some ss \<longleftrightarrow> vs = map PStr ss"
  using as_str_list_map as_str_list_SomeD by blast

lemma opt_str_val_eq: "opt_str_val x = opt_str_val y \<longleftrightarrow> x = y"
  by (cases x; cases y) (auto simp: opt_str_val_def)

lemma opt_list_val_eq: "opt_list_val x = opt_list_val y \<longleftrightarrow> x = y"
  by (cases x; cases y) (auto simp: opt_list_val_def map_PStr_eq)

lemma as_opt_str_list_val: "as_opt_str_list (opt_list_val x) = Some x"
  by (cases x) (auto simp: opt_list_val_def as_str_list_map)

lemma as_opt_str_list_Some: "as_opt_str_list v = Some x \<longleftrightarrow> v = opt_list_val x"
proof
  assume "as_opt_str_list v = Some x"
  then show "v = opt_list_val x"
    by (cases v; cases x) (auto simp: opt_list_val_def dest: as_str_list_SomeD split: option.splits)
next
  assume "v = opt_list_val x"
  then show "as_opt_str_list v = Some x" by (simp add: as_opt_str_list_val)
qed

lemma ProductOut_Inr:
  "ProductOut ob = Inr p \<longleftrightarrow>
     obj_id ob = opt_str_val (id' p) \<and> obj_title ob = PStr (title p) \<and>
     obj_description ob = opt_str_val (description p) \<and> obj_price ob = price p \<and>
     ge0 (price p) \<and> obj_category ob = PStr (category p) \<and> obj_in_stock ob = in_stock p \<and>
     obj_image ob = opt_str_val (image' p) \<and> obj_brand ob = opt_str_val (brand p) \<and>
     obj_colors ob = opt_list_val (colors p)"
proof
  assume "ProductOut ob = Inr p"
  then show "obj_id ob = opt_str_val (id' p) \<and> obj_title ob = PStr (title p) \<and>
     obj_description ob = opt_str_val (description p) \<and> obj_price ob = price p \<and>
     ge0 (price p) \<and> obj_category ob = PStr (category p) \<and> obj_in_stock ob = in_stock p \<and>
     obj_image ob = opt_str_val (image' p) \<and> obj_brand ob = opt_str_val (brand p) \<and>
     obj_colors ob = opt_list_val (colors p)"
    by (auto simp: ProductOut_def as_str_Some as_opt_str_Some as_opt_str_list_Some
        split: option.splits if_splits)
next
  assume "obj_id ob = opt_str_val (id' p) \<and> obj_title ob = PStr (title p) \<and>
     obj_description ob = opt_str_val (description p) \<and> obj_price ob = price p \<and>
     ge0 (price p) \<and> obj_category ob = PStr (category p) \<and> obj_in_stock ob = in_stock p \<and>
     obj_image ob = opt_str_val (image' p) \<and> obj_brand ob = opt_str_val (brand p) \<and>
     obj_colors ob = opt_list_val (colors p)"
  then show "ProductOut ob = Inr p"
    by (simp add: ProductOut_def as_opt_str_val as_opt_str_list_val)
qed

lemma for_each_Inr:
  "for_each body items acc = Inr out \<longleftrightarrow>
     (\<exists>ps. out = acc @ ps \<and> list_all2 (\<lambda>it p. body it = Inr p) items ps)"
proof (induction items arbitrary: acc)
  case Nil
  then show ?case by auto
next
  case (Cons it items)
  show ?case
  proof (cases "body it")
    case (Inl e)
    then show ?thesis by (auto simp: list_all2_Cons1)
  next
    case (Inr p)
    then show ?thesis using Cons.IH [of "acc @ [p]"]
      by (auto simp: list_all2_Cons1)
  qed
qed

lemma list_normalize_Inr:
  "list_normalize py it = Inr p \<longleftrightarrow>
     py_float py (get it ''price'' (PInt 0)) = Inr (price p) \<and> ge0 (price p) \<and>
     or_None (py_str py (get it ''_id'' (PStr ''''))) = opt_str_val (id' p) \<and>
     get it ''title'' PNone = PStr (title p) \<and>
     get it ''description'' PNone = opt_str_val (description p) \<and>
     get it ''category'' (PStr ''shoes'') = PStr (category p) \<and>
     py_bool (get it ''in_stock'' (PBool True)) = in_stock p \<and>
     get it ''image'' PNone = opt_str_val (image' p) \<and>
     get it ''brand'' PNone = opt_str_val (brand p) \<and>
     get it ''colors'' PNone = opt_list_val (colors p)"
  by (auto simp: list_normalize_def ProductOut_Inr split: sum.splits)

lemma featured_normalize_Inr:
  "featured_normalize py it = Inr p \<longleftrightarrow>
     py_float py (get it ''price'' (PInt 0)) = Inr (price p) \<and> ge0 (price p) \<and>
     or_None (py_str py (get it ''_id'' (PStr ''''))) = opt_str_val (id' p) \<and>
     get it ''title'' PNone = PStr (title p) \<and>
     get it ''description'' PNone = opt_str_val (description p) \<and>
     get it ''category'' (PStr ''shoes'') = PStr (category p) \<and>
     py_bool (get it ''in_stock'' (PBool True)) = in_stock p \<and>
     get it ''image'' PNone = opt_str_val (image' p) \<and>
     get it ''brand'' PNone = opt_str_val (brand p) \<and>
     get it ''colors'' PNone = opt_list_val (colors p)"
  by (auto simp: featured_normalize_def ProductOut_Inr split: sum.splits)

lemma or_None_eq: "or_None s = opt_str_val x \<longleftrightarrow> x = (if s = [] then None else Some s)"
  by (cases x) (auto simp: or_None_def opt_str_val_def)

lemma get_id_case:
  "or_None (py_str py (get it ''_id'' (PStr ''''))) = opt_str_val x \<Longrightarrow>
   (case map_of it ''_id'' of
      None \<Rightarrow> x = None
    | Some v \<Rightarrow> x = (if py_str py v = [] then None else Some (py_str py v)))"
  by (simp add: get_def or_None_eq split: option.splits)

lemma get_price_case:
  "py_float py (get it ''price'' (PInt 0)) = Inr f \<Longrightarrow>
   (case map_of it ''price'' of None \<Rightarrow> f = Fin 0 | Some v \<Rightarrow> py_float py v = Inr f)"
  by (auto simp: get_def split: option.splits)

lemma get_in_stock_case:
  "py_bool (get it ''in_stock'' (PBool True)) = b \<Longrightarrow>
   (case map_of it ''in_stock'' of None \<Rightarrow> b = True | Some v \<Rightarrow> b = py_bool v)"
  by (auto simp: get_def split: option.splits)

lemma get_category_case:
  "get it ''category'' (PStr ''shoes'') = PStr c \<Longrightarrow>
   (case map_of it ''category'' of None \<Rightarrow> c = ''shoes'' | Some v \<Rightarrow> v = PStr c)"
  by (auto simp: get_def split: option.splits)

lemma get_opt_str_case:
  "get it k PNone = opt_str_val x \<Longrightarrow>
   (case map_of it k of None \<Rightarrow> x = None | Some v \<Rightarrow> v = opt_str_val x)"
  by (cases x) (auto simp: get_def opt_str_val_def split: option.splits)

lemma get_opt_list_case:
  "get it k PNone = opt_list_val x \<Longrightarrow>
   (case map_of it k of None \<Rightarrow> x = None | Some v \<Rightarrow> v = opt_list_val x)"
  by (cases x) (auto simp: get_def opt_list_val_def split: option.splits)

section \<open>A store that answers\<close>

lemma store_call_quiet:
  assumes "set (faults s) \<subseteq> {None}"
  shows "\<exists>s'. store_call op s = (Inr (), s') \<and> handle s' = handle s \<and> colls s' = colls s \<and>
           next_id s' = next_id s \<and> name s' = name s \<and> set (faults s') \<subseteq> {None} \<and>
           trace s' = trace s @ [op]"
proof (cases "faults s")
  case Nil
  then show ?thesis by (simp add: store_call_def)
next
  case (Cons f fs)
  with assms have "f = None" and "set fs \<subseteq> {None}" by auto
  with Cons show ?thesis by (simp add: store_call_def)
qed

lemma docs_update:
  "docs (s\<lparr>colls := AList.update c ds (colls s), next_id := n\<rparr>) c' = (if c' = c then ds else docs s c')"
  by (simp add: docs_def update_conv')

lemma create_document_quiet:
  assumes "handle s" and "set (faults s) \<subseteq> {None}"
  shows "\<exists>i s'. create_document c d s = (Inr i, s') \<and> handle s' \<and> set (faults s') \<subseteq> {None} \<and>
           docs s' c = docs s c @ [(''_id'', PObjectId i) # d] \<and>
           trace s' = trace s @ [InsertOne c d]"
proof -
  from store_call_quiet [OF assms(2), of "InsertOne c d"]
  obtain s1 where call: "store_call (InsertOne c d) s = (Inr (), s1)"
    and h1: "handle s1 = handle s" and c1: "colls s1 = colls s"
    and f1: "set (faults s1) \<subseteq> {None}" and t1: "trace s1 = trace s @ [InsertOne c d]"
    by blast
  define i where "i = str_nat (next_id s1)"
  define s2 where "s2 = s1\<lparr>colls := AList.update c (docs s1 c @ [(''_id'', PObjectId i) # d]) (colls s1),
                          next_id := Suc (next_id s1)\<rparr>"
  have d1: "docs s1 c = docs s c" by (simp add: docs_def c1)
  have run: "create_document c d s = (Inr i, s2)"
    unfolding create_document_def s2_def i_def using assms(1) by (simp add: call Let_def)
  have "handle s2" by (simp add: s2_def h1 assms(1))
  moreover have "set (faults s2) \<subseteq> {None}" using f1 by (simp add: s2_def)
  moreover have "docs s2 c = docs s c @ [(''_id'', PObjectId i) # d]"
    by (simp add: s2_def docs_update d1)
  moreover have "trace s2 = trace s @ [InsertOne c d]" by (simp add: s2_def t1)
  ultimately show ?thesis using run by blast
qed

lemma seed_loop_quiet:
  assumes "handle s" and "set (faults s) \<subseteq> {None}"
  shows "\<exists>s'. seed_loop ps s = (Inr (), s') \<and> handle s' \<and> set (faults s') \<subseteq> {None} \<and>
           length (docs s' ''product'') = length (docs s ''product'') + length ps \<and>
           map (\<lambda>d. map_of d ''title'') (docs s' ''product'') =
             map (\<lambda>d. map_of d ''title'') (docs s ''product'') @ map (\<lambda>d. map_of d ''title'') ps"
  using assms
proof (induction ps arbitrary: s)
  case Nil
  then show ?case by simp
next
  case (Cons p ps)
  from create_document_quiet [OF Cons.prems, of "''product''" p]
  obtain i s1 where s1: "create_document ''product'' p s = (Inr i, s1)" "handle s1"
    "set (faults s1) \<subseteq> {None}" "docs s1 ''product'' = docs s ''product'' @ [(''_id'', PObjectId i) # p]"
    by blast
  from Cons.IH [OF s1(2) s1(3)]
  obtain s2 where s2: "seed_loop ps s1 = (Inr (), s2)" "handle s2" "set (faults s2) \<subseteq> {None}"
    "length (docs s2 ''product'') = length (docs s1 ''product'') + length ps"
    "map (\<lambda>d. map_of d ''title'') (docs s2 ''product'') =
       map (\<lambda>d. map_of d ''title'') (docs s1 ''product'') @ map (\<lambda>d. map_of d ''title'') ps"
    by blast
  from s1 s2 show ?case by simp
qed

lemma count_documents_quiet:
  assumes "set (faults s) \<subseteq> {None}"
  shows "\<exists>s'. count_documents c [] s = (Inr (int (length (docs s c))), s') \<and> handle s' = handle s \<and>
           colls s' = colls s \<and> set (faults s') \<subseteq> {None} \<and>
           trace s' = trace s @ [CountDocuments c []]"
proof -
  from store_call_quiet [OF assms, of "CountDocuments c []"]
  obtain s1 where s1: "store_call (CountDocuments c []) s = (Inr (), s1)" "handle s1 = handle s"
    "colls s1 = colls s" "set (faults s1) \<subseteq> {None}" "trace s1 = trace s @ [CountDocuments c []]"
    by blast
  have "docs s1 c = docs s c" using s1(3) by (simp add: docs_def)
  with s1 show ?thesis
    by (simp add: count_documents_def matches_def)
qed

lemma ensure_seed_empty:
  assumes "handle s" and "set (faults s) \<subseteq> {None}" and "docs s ''product'' = []"
  shows "\<exists>s'. ensure_seed s = (Inr (), s') \<and> handle s' \<and> set (faults s') \<subseteq> {None} \<and>
           length (docs s' ''product'') = length SAMPLE_PRODUCTS \<and>
           map (\<lambda>d. map_of d ''title'') (docs s' ''product'') =
             map (\<lambda>d. map_of d ''title'') SAMPLE_PRODUCTS"
proof -
  from count_documents_quiet [OF assms(2), of "''product''"]
  obtain s1 where s1: "count_documents ''product'' [] s = (Inr (int (length (docs s ''product''))), s1)"
    "handle s1 = handle s" "colls s1 = colls s" "set (faults s1) \<subseteq> {None}"
    by blast
  have d1: "docs s1 ''product'' = []" using s1(3) assms(3) by (simp add: docs_def)
  from seed_loop_quiet [of s1 SAMPLE_PRODUCTS] s1(2) s1(4) assms(1)
  obtain s2 where s2: "seed_loop SAMPLE_PRODUCTS s1 = (Inr (), s2)" "handle s2"
    "set (faults s2) \<subseteq> {None}"
    "length (docs s2 ''product'') = length (docs s1 ''product'') + length SAMPLE_PRODUCTS"
    "map (\<lambda>d. map_of d ''title'') (docs s2 ''product'') =
       map (\<lambda>d. map_of d ''title'') (docs s1 ''product'') @ map (\<lambda>d. map_of d ''title'') SAMPLE_PRODUCTS"
    by auto
  from s1 s2 d1 assms show ?thesis
    by (simp add: ensure_seed_def ensure_seed_try_def)
qed

lemma ensure_seed_nonempty:
  assumes "handle s" and "set (faults s) \<subseteq> {None}" and "docs s ''product'' \<noteq> []"
  shows "\<exists>s'. ensure_seed s = (Inr (), s') \<and> handle s' \<and> set (faults s') \<subseteq> {None} \<and>
           colls s' = colls s \<and> next_id s' = next_id s \<and>
           trace s' = trace s @ [CountDocuments ''product'' []]"
proof -
  from store_call_quiet [OF assms(2), of "CountDocuments ''product'' []"]
  obtain s1 where s1: "store_call (CountDocuments ''product'' []) s = (Inr (), s1)"
    "handle s1 = handle s" "colls s1 = colls s" "next_id s1 = next_id s"
    "set (faults s1) \<subseteq> {None}" "trace s1 = trace s @ [CountDocuments ''product'' []]"
    by blast
  have "docs s1 ''product'' = docs s ''product''" using s1(3) by (simp add: docs_def)
  with s1 assms show ?thesis
    by (simp add: ensure_seed_def ensure_seed_try_def count_documents_def matches_def)
qed

lemma sample_titles:
  "map (\<lambda>d. map_of d ''title'') SAMPLE_PRODUCTS =
     [Some (PStr ''Air Nova Runner''), Some (PStr ''Atlas Court Pro''),
      Some (PStr ''Storm Glide TR''), Some (PStr ''Pulse React 2'')]"
  by (simp add: SAMPLE_PRODUCTS_def)

lemma length_SAMPLE_PRODUCTS: "length SAMPLE_PRODUCTS = 4"
  by (simp add: SAMPLE_PRODUCTS_def)

section \<open>The catalogue reader, step by step\<close>

lemma store_call_frame:
  "handle (snd (store_call op s)) = handle s \<and> colls (snd (store_call op s)) = colls s \<and>
   trace (snd (store_call op s)) = trace s @ [op]"
  by (simp add: store_call_def Let_def split: list.splits option.splits)

lemma docs_store_call: "docs (snd (store_call op s)) c = docs s c"
  by (simp add: docs_def store_call_frame)

lemma create_document_handle: "handle (snd (create_document c d s)) = handle s"
proof (cases "store_call (InsertOne c d) s")
  case (Pair r s1)
  then have "handle s1 = handle s"
    using store_call_frame [of "InsertOne c d" s] by simp
  with Pair show ?thesis
    by (cases r) (simp_all add: create_document_def Let_def)
qed

lemma seed_loop_handle: "handle (snd (seed_loop ps s)) = handle s"
proof (induction ps arbitrary: s)
  case Nil
  then show ?case by simp
next
  case (Cons p ps)
  show ?case
  proof (cases "create_document ''product'' p s")
    case (Pair r s1)
    then have h1: "handle s1 = handle s"
      using create_document_handle [of "''product''" p s] by simp
    show ?thesis
    proof (cases r)
      case (Inl e)
      with Pair h1 show ?thesis by simp
    next
      case (Inr i)
      with Pair h1 Cons.IH [of s1] show ?thesis by simp
    qed
  qed
qed

lemma count_documents_handle: "handle (snd (count_documents c f s)) = handle s"
proof (cases "store_call (CountDocuments c f) s")
  case (Pair r s1)
  then have "handle s1 = handle s"
    using store_call_frame [of "CountDocuments c f" s] by simp
  with Pair show ?thesis
    by (cases r) (simp_all add: count_documents_def)
qed

lemma ensure_seed_try_handle: "handle (snd (ensure_seed_try s)) = handle s"
proof (cases "count_documents ''product'' [] s")
  case (Pair r s1)
  then have h1: "handle s1 = handle s"
    using count_documents_handle [of "''product''" "[]" s] by simp
  show ?thesis
  proof (cases r)
    case (Inl e)
    with Pair h1 show ?thesis by (simp add: ensure_seed_try_def)
  next
    case (Inr n)
    with Pair h1 seed_loop_handle [of SAMPLE_PRODUCTS s1] show ?thesis
      by (simp add: ensure_seed_try_def)
  qed
qed

lemma ensure_seed_returns: "ensure_seed s = (Inr (), snd (ensure_seed s))"
  by (simp add: ensure_seed_def split: prod.splits sum.splits)

lemma ensure_seed_handle: "handle (snd (ensure_seed s)) = handle s"
proof (cases "handle s")
  case False
  then show ?thesis by (simp add: ensure_seed_def)
next
  case True
  then have "snd (ensure_seed s) = snd (ensure_seed_try s)"
    by (simp add: ensure_seed_def split: prod.splits sum.splits)
  then show ?thesis by (simp add: ensure_seed_try_handle)
qed

lemma get_documents_Inr:
  assumes "fst (get_documents c f l s) = Inr items"
  shows "items = take (nat l) (filter (matches f) (docs s c))"
proof (cases "store_call (Find c f l) s")
  case (Pair r s1)
  then have "docs s1 c = docs s c"
    using docs_store_call [of "Find c f l" s c] by simp
  with Pair assms show ?thesis
    by (cases r) (auto simp: get_documents_def split: if_splits)
qed

lemma get_documents_trace:
  assumes "handle s"
  shows "trace (snd (get_documents c f l s)) = trace s @ [Find c f l]"
proof (cases "store_call (Find c f l) s")
  case (Pair r s1)
  then have "trace s1 = trace s @ [Find c f l]"
    using store_call_frame [of "Find c f l" s] by simp
  with Pair assms show ?thesis
    by (cases r) (simp_all add: get_documents_def)
qed

lemma list_products_unfold:
  "list_products py limit cat s =
     (case get_documents ''product'' (filter_dict cat) limit (snd (ensure_seed s)) of
        (Inl e, s2) \<Rightarrow> (for_each (list_normalize py) (slice_to SAMPLE_PRODUCTS limit) [], s2)
      | (Inr items, s2) \<Rightarrow> (for_each (list_normalize py) items [], s2))"
  by (subst list_products_def, subst ensure_seed_returns) simp

lemma featured_products_unfold:
  "featured_products py s =
     (case get_documents ''product'' [] 4 (snd (ensure_seed s)) of
        (Inl e, s2) \<Rightarrow> (for_each (featured_normalize py) (slice_to SAMPLE_PRODUCTS 4) [], s2)
      | (Inr items, s2) \<Rightarrow> (for_each (featured_normalize py) items [], s2))"
  by (subst featured_products_def, subst ensure_seed_returns) simp

lemma list_products_fallback:
  assumes "fst (get_documents ''product'' (filter_dict cat) limit (snd (ensure_seed s))) = Inl e"
  shows "fst (list_products py limit cat s) =
           for_each (list_normalize py) (slice_to SAMPLE_PRODUCTS limit) []"
  using assms by (auto simp: list_products_unfold split: prod.splits sum.splits)

lemma list_products_store:
  assumes "fst (get_documents ''product'' (filter_dict cat) limit (snd (ensure_seed s))) = Inr items"
  shows "fst (list_products py limit cat s) = for_each (list_normalize py) items []"
  using assms by (auto simp: list_products_unfold split: prod.splits sum.splits)

lemma featured_products_fallback:
  assumes "fst (get_documents ''product'' [] 4 (snd (ensure_seed s))) = Inl e"
  shows "fst (featured_products py s) =
           for_each (featured_normalize py) (slice_to SAMPLE_PRODUCTS 4) []"
  using assms by (auto simp: featured_products_unfold split: prod.splits sum.splits)

lemma featured_products_store:
  assumes "fst (get_documents ''product'' [] 4 (snd (ensure_seed s))) = Inr items"
  shows "fst (featured_products py s) = for_each (featured_normalize py) items []"
  using assms by (auto simp: featured_products_unfold split: prod.splits sum.splits)

lemma list_products_trace:
  assumes "handle s"
  shows "trace (snd (list_products py limit cat s)) =
           trace (snd (ensure_seed s)) @ [Find ''product'' (filter_dict cat) limit]"
proof -
  have "snd (list_products py limit cat s) =
      snd (get_documents ''product'' (filter_dict cat) limit (snd (ensure_seed s)))"
    by (simp add: list_products_unfold split: prod.splits sum.splits)
  then show ?thesis
    using assms by (simp add: get_documents_trace ensure_seed_handle)
qed

lemma featured_products_trace:
  assumes "handle s"
  shows "trace (snd (featured_products py s)) =
           trace (snd (ensure_seed s)) @ [Find ''product'' [] 4]"
proof -
  have "snd (featured_products py s) = snd (get_documents ''product'' [] 4 (snd (ensure_seed s)))"
    by (simp add: featured_products_unfold split: prod.splits sum.splits)
  then show ?thesis
    using assms by (simp add: get_documents_trace ensure_seed_handle)
qed

lemma for_each_total:
  assumes "\<forall>it \<in> set items. \<exists>p. body it = Inr p"
  shows "\<exists>out. for_each body items acc = Inr (acc @ out) \<and> length out = length items"
  using assms
proof (induction items arbitrary: acc)
  case Nil
  then show ?case by simp
next
  case (Cons it items)
  then obtain p where p: "body it = Inr p" by auto
  from Cons.prems have "\<forall>it \<in> set items. \<exists>p. body it = Inr p" by simp
  from Cons.IH [OF this, of "acc @ [p]"]
  obtain out where "for_each body items (acc @ [p]) = Inr ((acc @ [p]) @ out)"
    and "length out = length items" by blast
  with p have "for_each body (it # items) acc = Inr (acc @ (p # out)) \<and>
      length (p # out) = length (it # items)" by simp
  then show ?case by blast
qed

lemma sample_list_normalize:
  "\<forall>it \<in> set SAMPLE_PRODUCTS. \<exists>p. list_normalize py it = Inr p"
  by (simp add: SAMPLE_PRODUCTS_def list_normalize_def ProductOut_def get_def or_None_def)

lemma sample_featured_normalize:
  "\<forall>it \<in> set SAMPLE_PRODUCTS. \<exists>p. featured_normalize py it = Inr p"
  by (simp add: SAMPLE_PRODUCTS_def featured_normalize_def ProductOut_def get_def or_None_def)

lemma sample_prefix_list:
  "\<exists>out. for_each (list_normalize py) (take n SAMPLE_PRODUCTS) [] = Inr out \<and>
         length out = min n 4"
proof -
  have "\<forall>it \<in> set (take n SAMPLE_PRODUCTS). \<exists>p. list_normalize py it = Inr p"
    using sample_list_normalize [of py] by (meson in_set_takeD)
  from for_each_total [OF this, of "[]"] show ?thesis
    by (simp add: length_SAMPLE_PRODUCTS min.commute)
qed

lemma sample_prefix_featured:
  "\<exists>out. for_each (featured_normalize py) (take n SAMPLE_PRODUCTS) [] = Inr out \<and>
         length out = min n 4"
proof -
  have "\<forall>it \<in> set (take n SAMPLE_PRODUCTS). \<exists>p. featured_normalize py it = Inr p"
    using sample_featured_normalize [of py] by (meson in_set_takeD)
  from for_each_total [OF this, of "[]"] show ?thesis
    by (simp add: length_SAMPLE_PRODUCTS min.commute)
qed

lemma slice_to_nonneg: "0 \<le> n \<Longrightarrow> slice_to xs n = take (nat n) xs"
  by (simp add: slice_to_def)

lemma slice_to_neg:
  "n < 0 \<Longrightarrow> slice_to xs n = take (length xs - nat (- n)) xs"
proof -
  assume "n < 0"
  then have "nat (int (length xs) + n) = length xs - nat (- n)" by linarith
  with \<open>n < 0\<close> show ?thesis by (simp add: slice_to_def)
qed

lemma filter_matches_Nil: "filter (matches []) ds = ds"
  by (simp add: matches_def)

lemma for_each_length:
  assumes "for_each body items [] = Inr out"
  shows "length out = length items"
  using assms by (auto simp: for_each_Inr dest: list_all2_lengthD)

lemma list_all2_right:
  "list_all2 P xs ys \<Longrightarrow> y \<in> set ys \<Longrightarrow> \<exists>x \<in> set xs. P x y"
  by (induction rule: list_all2_induct) auto

lemma list_all2_left:
  "list_all2 P xs ys \<Longrightarrow> x \<in> set xs \<Longrightarrow> \<exists>y \<in> set ys. P x y"
  by (induction rule: list_all2_induct) auto

lemma for_each_member:
  assumes "for_each body items [] = Inr out" and "p \<in> set out"
  shows "\<exists>it \<in> set items. body it = Inr p"
proof -
  from assms(1) have "list_all2 (\<lambda>it p. body it = Inr p) items out"
    by (simp add: for_each_Inr)
  from list_all2_right [OF this assms(2)] show ?thesis .
qed

lemma for_each_source:
  assumes "for_each body items [] = Inr out" and "it \<in> set items"
  shows "\<exists>p \<in> set out. body it = Inr p"
proof -
  from assms(1) have "list_all2 (\<lambda>it p. body it = Inr p) items out"
    by (simp add: for_each_Inr)
  from list_all2_left [OF this assms(2)] show ?thesis .
qed

lemma list_products_ge0:
  assumes "fst (list_products py limit cat s) = Inr out" and "p \<in> set out"
  shows "ge0 (price p)"
proof -
  obtain items where "for_each (list_normalize py) items [] = Inr out"
  proof (cases "fst (get_documents ''product'' (filter_dict cat) limit (snd (ensure_seed s)))")
    case (Inl e)
    from list_products_fallback [OF Inl, of py] assms(1) that show ?thesis by simp
  next
    case (Inr items)
    from list_products_store [OF Inr, of py] assms(1) that show ?thesis by simp
  qed
  from for_each_member [OF this assms(2)] show ?thesis
    by (auto simp: list_normalize_Inr)
qed

lemma length_slice_to: "0 \<le> n \<Longrightarrow> length (slice_to xs n) \<le> nat n"
  by (simp add: slice_to_def)

lemma test_collections_shape:
  assumes "\<exists>a. backend r = PStr a" and "\<exists>e. connection_status r = PStr e"
    and "\<exists>cs. collections r = PList (map PStr cs) \<and> length cs \<le> 10"
  shows "(\<exists>a. backend (fst (test_collections r s)) = PStr a) \<and>
         (\<exists>b. database (fst (test_collections r s)) = PStr b) \<and>
         (\<exists>e. connection_status (fst (test_collections r s)) = PStr e) \<and>
         (\<exists>cs. collections (fst (test_collections r s)) = PList (map PStr cs) \<and> length cs \<le> 10)"
proof (cases "list_collection_names s")
  case (Pair res s')
  show ?thesis
  proof (cases res)
    case (Inl e)
    with Pair assms show ?thesis by (simp add: test_collections_def)
  next
    case (Inr cs)
    have "length (slice_to cs 10) \<le> 10"
      using length_slice_to [of 10 cs] by simp
    then have "\<exists>ds. PList (map PStr (slice_to cs 10)) = PList (map PStr ds) \<and> length ds \<le> 10"
      by blast
    with Pair Inr assms(1,2) show ?thesis by (simp add: test_collections_def)
  qed
qed

lemma test_try_shape:
  "(\<exists>a. backend (fst (snd (test_try initial_response s))) = PStr a) \<and>
   (\<exists>b. database (fst (snd (test_try initial_response s))) = PStr b) \<and>
   (\<exists>e. connection_status (fst (snd (test_try initial_response s))) = PStr e) \<and>
   (\<exists>cs. collections (fst (snd (test_try initial_response s))) = PList (map PStr cs) \<and>
         length cs \<le> 10)"
proof (cases "handle s")
  case False
  have "\<exists>cs. PList [] = PList (map PStr cs) \<and> length cs \<le> 10"
    by (rule exI [of _ "[]"]) simp
  with False show ?thesis by (simp add: test_try_def initial_response_def)
next
  case True
  let ?r1 = "initial_response\<lparr>database := PStr (check_mark @ '' Available''),
                               database_url := PStr (check_mark @ '' Configured'')\<rparr>"
  have nil: "\<exists>cs. PList [] = PList (map PStr cs) \<and> length cs \<le> 10"
    by (rule exI [of _ "[]"]) simp
  have r1: "(\<exists>a. backend ?r1 = PStr a) \<and> (\<exists>b. database ?r1 = PStr b) \<and>
      (\<exists>e. connection_status ?r1 = PStr e) \<and>
      (\<exists>cs. collections ?r1 = PList (map PStr cs) \<and> length cs \<le> 10)"
    using nil by (simp add: initial_response_def)
  show ?thesis
  proof (cases "hasattr_name s")
    case (Pair res s1)
    show ?thesis
    proof (cases res)
      case (Inl e)
      with Pair True r1 show ?thesis by (simp add: test_try_def Let_def)
    next
      case (Inr has)
      show ?thesis
      proof (cases "if has then getattr_name s1 else (Inr (PStr (check_mark @ '' Connected'')), s1)")
        case inner: (Pair res2 s2)
        show ?thesis
        proof (cases res2)
          case (Inl e)
          with Pair Inr inner True r1 show ?thesis by (simp add: test_try_def Let_def)
        next
          case nm: (Inr v)
          let ?r2 = "?r1\<lparr>database_name := v, connection_status := PStr ''Connected''\<rparr>"
          have a: "\<exists>a. backend ?r2 = PStr a" by (simp add: initial_response_def)
          have b: "\<exists>e. connection_status ?r2 = PStr e" by simp
          have c: "\<exists>cs. collections ?r2 = PList (map PStr cs) \<and> length cs \<le> 10"
            using nil by (simp add: initial_response_def)
          have "fst (snd (test_try initial_response s)) = fst (test_collections ?r2 s2)"
            using Pair Inr inner nm True
            by (simp add: test_try_def Let_def split: prod.splits)
          with test_collections_shape [OF a b c, of s2] show ?thesis by simp
        qed
      qed
    qed
  qed
qed

section \<open>Normalization of a raw document\<close>

text \<open>
  Claim C1. Whenever the loop of \<open>list_products\<close> or of \<open>featured_products\<close> turns
  the raw documents \<open>items\<close> into the products \<open>out\<close>, each product belongs to the
  document at its position and
  \<^item> its \<open>id\<close> is the text of the document's \<open>_id\<close>, and absent when that text is empty
    or the document has no \<open>_id\<close>;
  \<^item> its \<open>price\<close> is \<open>float\<close> of the document's price, and \<open>0.0\<close> when the document
    has none;
  \<^item> its \<open>in_stock\<close> is \<open>bool\<close> of the document's \<open>in_stock\<close>, and true when the
    document has none;
  \<^item> its \<open>category\<close> is the document's, and \<open>shoes\<close> when the document has none;
  \<^item> its \<open>description\<close>, \<open>image\<close>, \<open>brand\<close> and \<open>colors\<close> are the document's
    values, and absent when the document has none.
\<close>

theorem normalization_fields:
  assumes "body = list_normalize py \<or> body = featured_normalize py"
    and "for_each body items [] = Inr out"
  shows "list_all2 (\<lambda>it p.
           (case map_of it ''_id'' of
              None \<Rightarrow> id' p = None
            | Some v \<Rightarrow> id' p = (if py_str py v = [] then None else Some (py_str py v))) \<and>
           (case map_of it ''price'' of
              None \<Rightarrow> price p = Fin 0
            | Some v \<Rightarrow> py_float py v = Inr (price p)) \<and>
           (case map_of it ''in_stock'' of
              None \<Rightarrow> in_stock p = True
            | Some v \<Rightarrow> in_stock p = py_bool v) \<and>
           (case map_of it ''category'' of
              None \<Rightarrow> category p = ''shoes''
            | Some v \<Rightarrow> v = PStr (category p)) \<and>
           (case map_of it ''description'' of
              None \<Rightarrow> description p = None
            | Some v \<Rightarrow> v = opt_str_val (description p)) \<and>
           (case map_of it ''image'' of
              None \<Rightarrow> image' p = None
            | Some v \<Rightarrow> v = opt_str_val (image' p)) \<and>
           (case map_of it ''brand'' of
              None \<Rightarrow> brand p = None
            | Some v \<Rightarrow> v = opt_str_val (brand p)) \<and>
           (case map_of it ''colors'' of
              None \<Rightarrow> colors p = None
            | Some v \<Rightarrow> v = opt_list_val (colors p))) items out"
proof -
  have "list_all2 (\<lambda>it p. body it = Inr p) items out"
    using assms(2) by (simp add: for_each_Inr)
  then show ?thesis
  proof (rule list_all2_mono)
    fix it p
    assume "body it = Inr p"
    with assms(1) have n: "list_normalize py it = Inr p \<or> featured_normalize py it = Inr p"
      by blast
    have a: "or_None (py_str py (get it ''_id'' (PStr ''''))) = opt_str_val (id' p)"
      using n unfolding list_normalize_Inr featured_normalize_Inr by blast
    have b: "py_float py (get it ''price'' (PInt 0)) = Inr (price p)"
      using n unfolding list_normalize_Inr featured_normalize_Inr by blast
    have c: "py_bool (get it ''in_stock'' (PBool True)) = in_stock p"
      using n unfolding list_normalize_Inr featured_normalize_Inr by blast
    have d: "get it ''category'' (PStr ''shoes'') = PStr (category p)"
      using n unfolding list_normalize_Inr featured_normalize_Inr by blast
    have e: "get it ''description'' PNone = opt_str_val (description p)"
      using n unfolding list_normalize_Inr featured_normalize_Inr by blast
    have f: "get it ''image'' PNone = opt_str_val (image' p)"
      using n unfolding list_normalize_Inr featured_normalize_Inr by blast
    have g: "get it ''brand'' PNone = opt_str_val (brand p)"
      using n unfolding list_normalize_Inr featured_normalize_Inr by blast
    have h: "get it ''colors'' PNone = opt_list_val (colors p)"
      using n unfolding list_normalize_Inr featured_normalize_Inr by blast
    show "(case map_of it ''_id'' of
              None \<Rightarrow> id' p = None
            | Some v \<Rightarrow> id' p = (if py_str py v = [] then None else Some (py_str py v))) \<and>
           (case map_of it ''price'' of
              None \<Rightarrow> price p = Fin 0
            | Some v \<Rightarrow> py_float py v = Inr (price p)) \<and>
           (case map_of it ''in_stock'' of
              None \<Rightarrow> in_stock p = True
            | Some v \<Rightarrow> in_stock p = py_bool v) \<and>
           (case map_of it ''category'' of
              None \<Rightarrow> category p = ''shoes''
            | Some v \<Rightarrow> v = PStr (category p)) \<and>
           (case map_of it ''description'' of
              None \<Rightarrow> description p = None
            | Some v \<Rightarrow> v = opt_str_val (description p)) \<and>
           (case map_of it ''image'' of
              None \<Rightarrow> image' p = None
            | Some v \<Rightarrow> v = opt_str_val (image' p)) \<and>
           (case map_of it ''brand'' of
              None \<Rightarrow> brand p = None
            | Some v \<Rightarrow> v = opt_str_val (brand p)) \<and>
           (case map_of it ''colors'' of
              None \<Rightarrow> colors p = None
            | Some v \<Rightarrow> v = opt_list_val (colors p))"
      using get_id_case [OF a] get_price_case [OF b] get_in_stock_case [OF c]
        get_category_case [OF d] get_opt_str_case [OF e] get_opt_str_case [OF f]
        get_opt_str_case [OF g] get_opt_list_case [OF h]
      by (intro conjI)
  qed
qed
theorem normalization_fields_witness:
  "for_each
     (list_normalize \<lparr>float_big_int = \<lambda>i. None, float_str = \<lambda>s. None,
                      str_float = \<lambda>f. ''nan'', str_list = \<lambda>xs. ''[]''\<rparr>)
     [[(''_id'', PObjectId ''65a1''), (''title'', PStr ''Boot''), (''price'', PInt 5),
       (''brand'', PStr ''Nova'')]] []
   = Inr [\<lparr>id' = Some ''65a1'', title = ''Boot'', description = None, price = Fin 5,
            category = ''shoes'', in_stock = True, image' = None, brand = Some ''Nova'',
            colors = None\<rparr>] \<and>
   list_all2 (\<lambda>it p.
           (case map_of it ''_id'' of
              None \<Rightarrow> id' p = None
            | Some v \<Rightarrow>
                id' p =
                  (if py_str \<lparr>float_big_int = \<lambda>i. None, float_str = \<lambda>s. None,
                               str_float = \<lambda>f. ''nan'', str_list = \<lambda>xs. ''[]''\<rparr> v = []
                   then None
                   else Some (py_str \<lparr>float_big_int = \<lambda>i. None, float_str = \<lambda>s. None,
                                      str_float = \<lambda>f. ''nan'', str_list = \<lambda>xs. ''[]''\<rparr> v))) \<and>
           (case map_of it ''price'' of
              None \<Rightarrow> price p = Fin 0
            | Some v \<Rightarrow>
                py_float \<lparr>float_big_int = \<lambda>i. None, float_str = \<lambda>s. None,
                          str_float = \<lambda>f. ''nan'', str_list = \<lambda>xs. ''[]''\<rparr> v = Inr (price p)) \<and>
           (case map_of it ''in_stock'' of
              None \<Rightarrow> in_stock p = True
            | Some v \<Rightarrow> in_stock p = py_bool v) \<and>
           (case map_of it ''category'' of
              None \<Rightarrow> category p = ''shoes''
            | Some v \<Rightarrow> v = PStr (category p)) \<and>
           (case map_of it ''description'' of
              None \<Rightarrow> description p = None
            | Some v \<Rightarrow> v = opt_str_val (description p)) \<and>
           (case map_of it ''image'' of
              None \<Rightarrow> image' p = None
            | Some v \<Rightarrow> v = opt_str_val (image' p)) \<and>
           (case map_of it ''brand'' of
              None \<Rightarrow> brand p = None
            | Some v \<Rightarrow> v = opt_str_val (brand p)) \<and>
           (case map_of it ''colors'' of
              None \<Rightarrow> colors p = None
            | Some v \<Rightarrow> v = opt_list_val (colors p)))
     [[(''_id'', PObjectId ''65a1''), (''title'', PStr ''Boot''), (''price'', PInt 5),
       (''brand'', PStr ''Nova'')]]
     [\<lparr>id' = Some ''65a1'', title = ''Boot'', description = None, price = Fin 5,
        category = ''shoes'', in_stock = True, image' = None, brand = Some ''Nova'',
        colors = None\<rparr>]"
proof -
  have run: "for_each
     (list_normalize \<lparr>float_big_int = \<lambda>i. None, float_str = \<lambda>s. None,
                      str_float = \<lambda>f. ''nan'', str_list = \<lambda>xs. ''[]''\<rparr>)
     [[(''_id'', PObjectId ''65a1''), (''title'', PStr ''Boot''), (''price'', PInt 5),
       (''brand'', PStr ''Nova'')]] []
   = Inr [\<lparr>id' = Some ''65a1'', title = ''Boot'', description = None, price = Fin 5,
            category = ''shoes'', in_stock = True, image' = None, brand = Some ''Nova'',
            colors = None\<rparr>]"
    by (simp add: list_normalize_def ProductOut_def get_def or_None_def)
  from normalization_fields [OF disjI1 [OF refl] run] run show ?thesis
    by (rule_tac conjI)
qed

section \<open>The fallback to the sample list\<close>

text \<open>
  Claim C2, amended. For every limit that is not negative and every category argument,
  when the query of the store raises, \<open>list_products\<close> returns the normalization of the
  first \<open>limit\<close> entries of the four samples, whatever the category: a product for each
  of them, \<open>min limit 4\<close> in all. The claim as it stands, for every limit, fails at
  \<open>limit = -1\<close>: there the result has three products, which is no prefix of length
  \<open>limit\<close>.
\<close>

theorem fallback_first_entries:
  assumes "0 \<le> limit"
    and "fst (get_documents ''product'' (filter_dict cat) limit (snd (ensure_seed s))) = Inl e"
  shows "fst (list_products py limit cat s) =
           for_each (list_normalize py) (take (nat limit) SAMPLE_PRODUCTS) [] \<and>
         (\<exists>out. fst (list_products py limit cat s) = Inr out \<and> length out = min (nat limit) 4)"
proof -
  have eq: "fst (list_products py limit cat s) =
      for_each (list_normalize py) (take (nat limit) SAMPLE_PRODUCTS) []"
    using list_products_fallback [OF assms(2)] assms(1) by (simp add: slice_to_nonneg)
  from sample_prefix_list [of py "nat limit"] eq show ?thesis by simp
qed

theorem fallback_first_entries_witness:
  "(0::int) \<le> 2 \<and>
   fst (get_documents ''product'' (filter_dict (Some ''trail'')) 2
          (snd (ensure_seed \<lparr>handle = False, colls = [], next_id = 0, name = None,
                              faults = [], trace = []\<rparr>))) = Inl unavailable \<and>
   fst (list_products
          \<lparr>float_big_int = \<lambda>i. None, float_str = \<lambda>s. None,
             str_float = \<lambda>f. ''nan'', str_list = \<lambda>xs. ''[]''\<rparr>
          2 (Some ''trail'')
          \<lparr>handle = False, colls = [], next_id = 0, name = None, faults = [], trace = []\<rparr>) =
     for_each
       (list_normalize \<lparr>float_big_int = \<lambda>i. None, float_str = \<lambda>s. None,
                        str_float = \<lambda>f. ''nan'', str_list = \<lambda>xs. ''[]''\<rparr>)
       (take (nat 2) SAMPLE_PRODUCTS) [] \<and>
   map_sum id (map title)
     (for_each
       (list_normalize \<lparr>float_big_int = \<lambda>i. None, float_str = \<lambda>s. None,
                        str_float = \<lambda>f. ''nan'', str_list = \<lambda>xs. ''[]''\<rparr>)
       (take (nat 2) SAMPLE_PRODUCTS) []) = Inr [''Air Nova Runner'', ''Atlas Court Pro'']"
proof -
  have l: "(0::int) \<le> 2" by simp
  have q: "fst (get_documents ''product'' (filter_dict (Some ''trail'')) 2
          (snd (ensure_seed \<lparr>handle = False, colls = [], next_id = 0, name = None,
                              faults = [], trace = []\<rparr>))) = Inl unavailable"
    by (simp add: ensure_seed_def get_documents_def)
  have t: "map_sum id (map title)
     (for_each
       (list_normalize \<lparr>float_big_int = \<lambda>i. None, float_str = \<lambda>s. None,
                        str_float = \<lambda>f. ''nan'', str_list = \<lambda>xs. ''[]''\<rparr>)
       (take (nat 2) SAMPLE_PRODUCTS) []) = Inr [''Air Nova Runner'', ''Atlas Court Pro'']"
    by (simp add: SAMPLE_PRODUCTS_def list_normalize_def ProductOut_def get_def or_None_def)
  show ?thesis
    by (rule conjI [OF l conjI [OF q conjI [OF conjunct1 [OF fallback_first_entries [OF l q]] t]]])
qed

theorem fallback_first_entries_counterexample:
  "fst (get_documents ''product'' (filter_dict None) (- 1)
          (snd (ensure_seed \<lparr>handle = False, colls = [], next_id = 0, name = None,
                              faults = [], trace = []\<rparr>))) = Inl unavailable \<and>
   map_sum id length
     (fst (list_products
             \<lparr>float_big_int = \<lambda>i. None, float_str = \<lambda>s. None,
                str_float = \<lambda>f. ''nan'', str_list = \<lambda>xs. ''[]''\<rparr>
             (- 1) None
             \<lparr>handle = False, colls = [], next_id = 0, name = None, faults = [], trace = []\<rparr>)) =
     Inr 3 \<and>
   map_sum id length
     (for_each
        (list_normalize \<lparr>float_big_int = \<lambda>i. None, float_str = \<lambda>s. None,
                         str_float = \<lambda>f. ''nan'', str_list = \<lambda>xs. ''[]''\<rparr>)
        (take (nat (- 1)) SAMPLE_PRODUCTS) []) = Inr 0 \<and>
   fst (list_products
          \<lparr>float_big_int = \<lambda>i. None, float_str = \<lambda>s. None,
             str_float = \<lambda>f. ''nan'', str_list = \<lambda>xs. ''[]''\<rparr>
          (- 1) None
          \<lparr>handle = False, colls = [], next_id = 0, name = None, faults = [], trace = []\<rparr>) \<noteq>
     for_each
       (list_normalize \<lparr>float_big_int = \<lambda>i. None, float_str = \<lambda>s. None,
                        str_float = \<lambda>f. ''nan'', str_list = \<lambda>xs. ''[]''\<rparr>)
       (take (nat (- 1)) SAMPLE_PRODUCTS) []"
proof -
  have q: "fst (get_documents ''product'' (filter_dict None) (- 1)
          (snd (ensure_seed \<lparr>handle = False, colls = [], next_id = 0, name = None,
                              faults = [], trace = []\<rparr>))) = Inl unavailable"
    by (simp add: ensure_seed_def get_documents_def)
  have eq: "fst (list_products
          \<lparr>float_big_int = \<lambda>i. None, float_str = \<lambda>s. None,
             str_float = \<lambda>f. ''nan'', str_list = \<lambda>xs. ''[]''\<rparr>
          (- 1) None
          \<lparr>handle = False, colls = [], next_id = 0, name = None, faults = [], trace = []\<rparr>) =
      for_each
        (list_normalize \<lparr>float_big_int = \<lambda>i. None, float_str = \<lambda>s. None,
                         str_float = \<lambda>f. ''nan'', str_list = \<lambda>xs. ''[]''\<rparr>)
        (take 3 SAMPLE_PRODUCTS) []"
    using list_products_fallback [OF q] by (simp add: slice_to_def length_SAMPLE_PRODUCTS)
  from sample_prefix_list [of _ 3]
  obtain out where out: "for_each
        (list_normalize \<lparr>float_big_int = \<lambda>i. None, float_str = \<lambda>s. None,
                         str_float = \<lambda>f. ''nan'', str_list = \<lambda>xs. ''[]''\<rparr>)
        (take 3 SAMPLE_PRODUCTS) [] = Inr out" and len: "length out = 3"
    by auto
  have z: "for_each
        (list_normalize \<lparr>float_big_int = \<lambda>i. None, float_str = \<lambda>s. None,
                         str_float = \<lambda>f. ''nan'', str_list = \<lambda>xs. ''[]''\<rparr>)
        (take (nat (- 1)) SAMPLE_PRODUCTS) [] = Inr []"
    by simp
  have ne: "Inr out \<noteq> (Inr [] :: error + product list)" using len by auto
  show ?thesis
    unfolding eq z out using q len ne by simp
qed

section \<open>The seed guard never raises\<close>

text \<open>
  Claim C3. \<open>ensure_seed\<close> returns normally in every state of the store, whatever the
  count or an insert raises: with a handle, the store is left as the body of the \<open>try\<close>
  left it, exception or not. Without a handle the store is left as it was, log and failure
  schedule included: no operation reached it.
\<close>

theorem ensure_seed_never_raises:
  "fst (ensure_seed s) = Inr () \<and>
   (handle s \<longrightarrow> snd (ensure_seed s) = snd (ensure_seed_try s)) \<and>
   (\<not> handle s \<longrightarrow> snd (ensure_seed s) = s)"
  by (simp add: ensure_seed_def split: prod.splits sum.splits)

theorem ensure_seed_never_raises_witness:
  "\<not> handle \<lparr>handle = False, colls = [], next_id = 0, name = None, faults = [], trace = []\<rparr> \<and>
   fst (ensure_seed \<lparr>handle = False, colls = [], next_id = 0, name = None, faults = [], trace = []\<rparr>) = Inr () \<and>
   snd (ensure_seed \<lparr>handle = False, colls = [], next_id = 0, name = None, faults = [], trace = []\<rparr>) =
     \<lparr>handle = False, colls = [], next_id = 0, name = None, faults = [], trace = []\<rparr> \<and>
   handle \<lparr>handle = True, colls = [], next_id = 0, name = None,
           faults = [None, None, Some ''connection lost''], trace = []\<rparr> \<and>
   fst (ensure_seed_try \<lparr>handle = True, colls = [], next_id = 0, name = None,
                         faults = [None, None, Some ''connection lost''], trace = []\<rparr>) =
     Inl (Error StoreError ''connection lost'') \<and>
   fst (ensure_seed \<lparr>handle = True, colls = [], next_id = 0, name = None,
                     faults = [None, None, Some ''connection lost''], trace = []\<rparr>) = Inr () \<and>
   fst (ensure_seed_try \<lparr>handle = True, colls = [], next_id = 0, name = None,
                         faults = [Some ''timed out''], trace = []\<rparr>) =
     Inl (Error StoreError ''timed out'') \<and>
   fst (ensure_seed \<lparr>handle = True, colls = [], next_id = 0, name = None,
                     faults = [Some ''timed out''], trace = []\<rparr>) = Inr ()"
proof -
  have a: "fst (ensure_seed_try \<lparr>handle = True, colls = [], next_id = 0, name = None,
                         faults = [None, None, Some ''connection lost''], trace = []\<rparr>) =
     Inl (Error StoreError ''connection lost'')"
    by code_simp
  have b: "fst (ensure_seed_try \<lparr>handle = True, colls = [], next_id = 0, name = None,
                         faults = [Some ''timed out''], trace = []\<rparr>) =
     Inl (Error StoreError ''timed out'')"
    by code_simp
  have c: "\<not> handle \<lparr>handle = False, colls = [], next_id = 0, name = None, faults = [], trace = []\<rparr>"
    by simp
  have d: "handle \<lparr>handle = True, colls = [], next_id = 0, name = None,
           faults = [None, None, Some ''connection lost''], trace = []\<rparr>"
    by simp
  show ?thesis
    using a b c d
      ensure_seed_never_raises [of "\<lparr>handle = False, colls = [], next_id = 0, name = None,
        faults = [], trace = []\<rparr>"]
      ensure_seed_never_raises [of "\<lparr>handle = True, colls = [], next_id = 0, name = None,
        faults = [None, None, Some ''connection lost''], trace = []\<rparr>"]
      ensure_seed_never_raises [of "\<lparr>handle = True, colls = [], next_id = 0, name = None,
        faults = [Some ''timed out''], trace = []\<rparr>"]
    by blast
qed

section \<open>Seeding twice\<close>

text \<open>
  Claim C4. From an empty product collection, with a handle and a store that answers every
  operation, two runs of \<open>ensure_seed\<close> in sequence leave exactly the four sample titles
  in the collection. The first run inserts the four samples; the second one counts, finds
  the collection not empty and inserts nothing: the collections are as the first run left
  them and its only operation is the count.
\<close>

theorem seeding_twice:
  assumes "handle s" and "set (faults s) \<subseteq> {None}" and "docs s ''product'' = []"
  shows "(\<lambda>d. map_of d ''title'') ` set (docs (snd (ensure_seed (snd (ensure_seed s)))) ''product'') =
           {Some (PStr ''Air Nova Runner''), Some (PStr ''Atlas Court Pro''),
            Some (PStr ''Storm Glide TR''), Some (PStr ''Pulse React 2'')} \<and>
         (\<lambda>d. map_of d ''title'') ` set (docs (snd (ensure_seed (snd (ensure_seed s)))) ''product'') =
           (\<lambda>d. map_of d ''title'') ` set SAMPLE_PRODUCTS \<and>
         colls (snd (ensure_seed (snd (ensure_seed s)))) = colls (snd (ensure_seed s)) \<and>
         trace (snd (ensure_seed (snd (ensure_seed s)))) =
           trace (snd (ensure_seed s)) @ [CountDocuments ''product'' []] \<and>
         length (docs (snd (ensure_seed s)) ''product'') = 4"
proof -
  from ensure_seed_empty [OF assms]
  obtain s1 where s1: "ensure_seed s = (Inr (), s1)" "handle s1" "set (faults s1) \<subseteq> {None}"
    "length (docs s1 ''product'') = length SAMPLE_PRODUCTS"
    "map (\<lambda>d. map_of d ''title'') (docs s1 ''product'') = map (\<lambda>d. map_of d ''title'') SAMPLE_PRODUCTS"
    by blast
  from s1(4) have ne: "docs s1 ''product'' \<noteq> []"
    by (auto simp: length_SAMPLE_PRODUCTS)
  from ensure_seed_nonempty [OF s1(2) s1(3) ne]
  obtain s2 where s2: "ensure_seed s1 = (Inr (), s2)" "colls s2 = colls s1"
    "trace s2 = trace s1 @ [CountDocuments ''product'' []]"
    by blast
  have d2: "docs s2 ''product'' = docs s1 ''product''"
    using s2(2) by (simp add: docs_def)
  have img: "(\<lambda>d. map_of d ''title'') ` set (docs s1 ''product'') =
      set (map (\<lambda>d. map_of d ''title'') SAMPLE_PRODUCTS)"
    using s1(5) by (metis set_map)
  have t1: "(\<lambda>d. map_of d ''title'') ` set (docs s2 ''product'') =
      {Some (PStr ''Air Nova Runner''), Some (PStr ''Atlas Court Pro''),
       Some (PStr ''Storm Glide TR''), Some (PStr ''Pulse React 2'')}"
    unfolding d2 img sample_titles by simp
  have t2: "(\<lambda>d. map_of d ''title'') ` set (docs s2 ''product'') =
      (\<lambda>d. map_of d ''title'') ` set SAMPLE_PRODUCTS"
    unfolding d2 img by simp
  have e1: "snd (ensure_seed s) = s1" using s1(1) by simp
  have e2: "snd (ensure_seed s1) = s2" using s2(1) by simp
  have l4: "length (docs s1 ''product'') = 4"
    using s1(4) by (simp only: length_SAMPLE_PRODUCTS)
  show ?thesis
    unfolding e1 e2 using t1 t2 s2(2) s2(3) l4 by (intro conjI)
qed

theorem seeding_twice_witness:
  "handle \<lparr>handle = True, colls = [], next_id = 0, name = None, faults = [], trace = []\<rparr> \<and>
   set (faults \<lparr>handle = True, colls = [], next_id = 0, name = None, faults = [], trace = []\<rparr>)
     \<subseteq> {None} \<and>
   docs \<lparr>handle = True, colls = [], next_id = 0, name = None, faults = [], trace = []\<rparr> ''product'' = [] \<and>
   (\<lambda>d. map_of d ''title'') `
     set (docs (snd (ensure_seed (snd (ensure_seed
       \<lparr>handle = True, colls = [], next_id = 0, name = None, faults = [], trace = []\<rparr>)))) ''product'') =
     {Some (PStr ''Air Nova Runner''), Some (PStr ''Atlas Court Pro''),
      Some (PStr ''Storm Glide TR''), Some (PStr ''Pulse React 2'')}"
proof -
  have h: "handle \<lparr>handle = True, colls = [], next_id = 0, name = None, faults = [], trace = []\<rparr>"
    by simp
  have q: "set (faults \<lparr>handle = True, colls = [], next_id = 0, name = None, faults = [], trace = []\<rparr>)
     \<subseteq> {None}"
    by simp
  have e: "docs \<lparr>handle = True, colls = [], next_id = 0, name = None, faults = [], trace = []\<rparr>
     ''product'' = []"
    by (simp add: docs_def)
  show ?thesis
    by (rule conjI [OF h conjI [OF q conjI [OF e conjunct1 [OF seeding_twice [OF h q e]]]]])
qed

section \<open>The featured products\<close>

text \<open>
  Claim C5, amended. \<open>featured_products\<close> asks the store for up to 4 documents of the
  product collection with no filter. When the query raises, it returns the normalization
  of the first 4 samples, four products. When the query succeeds, the store yields the
  first 4 documents of the collection, and the result is the loop over them: if it is a
  sequence of products it has exactly \<open>min 4 available\<close> of them, and it is one
  whenever every document yielded passes the normalization. The claim as it stands,
  "always returns", fails on a store that holds a document the schema refuses: there the
  query yields one document and the request ends with the validation error.
\<close>

theorem featured_products_count:
  "(handle s \<longrightarrow>
      trace (snd (featured_products py s)) =
        trace (snd (ensure_seed s)) @ [Find ''product'' [] 4]) \<and>
   (\<forall>e. fst (get_documents ''product'' [] 4 (snd (ensure_seed s))) = Inl e \<longrightarrow>
      fst (featured_products py s) =
        for_each (featured_normalize py) (take 4 SAMPLE_PRODUCTS) [] \<and>
      (\<exists>out. fst (featured_products py s) = Inr out \<and> length out = 4)) \<and>
   (\<forall>items. fst (get_documents ''product'' [] 4 (snd (ensure_seed s))) = Inr items \<longrightarrow>
      items = take 4 (docs (snd (ensure_seed s)) ''product'') \<and>
      fst (featured_products py s) = for_each (featured_normalize py) items [] \<and>
      (\<forall>out. fst (featured_products py s) = Inr out \<longrightarrow>
         length out = min 4 (length (docs (snd (ensure_seed s)) ''product''))) \<and>
      ((\<forall>it \<in> set items. \<exists>p. featured_normalize py it = Inr p) \<longrightarrow>
         (\<exists>out. fst (featured_products py s) = Inr out \<and>
            length out = min 4 (length (docs (snd (ensure_seed s)) ''product'')))))"
proof (intro conjI allI impI)
  assume "handle s"
  then show "trace (snd (featured_products py s)) =
        trace (snd (ensure_seed s)) @ [Find ''product'' [] 4]"
    by (rule featured_products_trace)
next
  fix e
  assume q: "fst (get_documents ''product'' [] 4 (snd (ensure_seed s))) = Inl e"
  show eq: "fst (featured_products py s) =
        for_each (featured_normalize py) (take 4 SAMPLE_PRODUCTS) []"
    using featured_products_fallback [OF q, of py] by (simp add: slice_to_def)
  from sample_prefix_featured [of py 4] eq
  show "\<exists>out. fst (featured_products py s) = Inr out \<and> length out = 4"
    by simp
next
  fix items
  assume q: "fst (get_documents ''product'' [] 4 (snd (ensure_seed s))) = Inr items"
  show "items = take 4 (docs (snd (ensure_seed s)) ''product'')"
    using get_documents_Inr [OF q] by (simp add: filter_matches_Nil)
next
  fix items
  assume q: "fst (get_documents ''product'' [] 4 (snd (ensure_seed s))) = Inr items"
  show "fst (featured_products py s) = for_each (featured_normalize py) items []"
    by (rule featured_products_store [OF q])
next
  fix items out
  assume q: "fst (get_documents ''product'' [] 4 (snd (ensure_seed s))) = Inr items"
    and r: "fst (featured_products py s) = Inr out"
  have i: "items = take 4 (docs (snd (ensure_seed s)) ''product'')"
    using get_documents_Inr [OF q] by (simp add: filter_matches_Nil)
  have "for_each (featured_normalize py) items [] = Inr out"
    using featured_products_store [OF q, of py] r by simp
  from for_each_length [OF this] i
  show "length out = min 4 (length (docs (snd (ensure_seed s)) ''product''))"
    by (simp add: min.commute)
next
  fix items
  assume q: "fst (get_documents ''product'' [] 4 (snd (ensure_seed s))) = Inr items"
    and ok: "\<forall>it \<in> set items. \<exists>p. featured_normalize py it = Inr p"
  have i: "items = take 4 (docs (snd (ensure_seed s)) ''product'')"
    using get_documents_Inr [OF q] by (simp add: filter_matches_Nil)
  from for_each_total [OF ok, of "[]"]
  obtain out where "for_each (featured_normalize py) items [] = Inr out"
    and "length out = length items" by auto
  with featured_products_store [OF q, of py] i
  show "\<exists>out. fst (featured_products py s) = Inr out \<and>
            length out = min 4 (length (docs (snd (ensure_seed s)) ''product''))"
    by (simp add: min.commute)
qed

theorem featured_products_count_witness:
  "handle \<lparr>handle = True,
            colls = [(''product'', [[(''_id'', PObjectId ''a1''), (''title'', PStr ''Boot'')]])],
            next_id = 1, name = None, faults = [], trace = []\<rparr> \<and>
   fst (get_documents ''product'' [] 4
          (snd (ensure_seed
             \<lparr>handle = True,
                colls = [(''product'', [[(''_id'', PObjectId ''a1''), (''title'', PStr ''Boot'')]])],
                next_id = 1, name = None, faults = [], trace = []\<rparr>))) =
     Inr [[(''_id'', PObjectId ''a1''), (''title'', PStr ''Boot'')]] \<and>
   (\<exists>p. featured_normalize
          \<lparr>float_big_int = \<lambda>i. None, float_str = \<lambda>s. None,
             str_float = \<lambda>f. ''nan'', str_list = \<lambda>xs. ''[]''\<rparr>
          [(''_id'', PObjectId ''a1''), (''title'', PStr ''Boot'')] = Inr p) \<and>
   (\<exists>out. fst (featured_products
                 \<lparr>float_big_int = \<lambda>i. None, float_str = \<lambda>s. None,
                    str_float = \<lambda>f. ''nan'', str_list = \<lambda>xs. ''[]''\<rparr>
                 \<lparr>handle = True,
                    colls = [(''product'', [[(''_id'', PObjectId ''a1''), (''title'', PStr ''Boot'')]])],
                    next_id = 1, name = None, faults = [], trace = []\<rparr>) = Inr out \<and>
          length out =
            min 4 (length (docs (snd (ensure_seed
              \<lparr>handle = True,
                 colls = [(''product'', [[(''_id'', PObjectId ''a1''), (''title'', PStr ''Boot'')]])],
                 next_id = 1, name = None, faults = [], trace = []\<rparr>)) ''product'')))"
proof -
  let ?s = "\<lparr>handle = True,
             colls = [(''product'', [[(''_id'', PObjectId ''a1''), (''title'', PStr ''Boot'')]])],
             next_id = 1, name = None, faults = [], trace = []\<rparr>"
  let ?py = "\<lparr>float_big_int = \<lambda>i. None, float_str = \<lambda>s. None,
              str_float = \<lambda>f. ''nan'', str_list = \<lambda>xs. ''[]''\<rparr>"
  let ?items = "[[(''_id'', PObjectId ''a1''), (''title'', PStr ''Boot'')]]"
  have h: "handle ?s" by simp
  have q: "fst (get_documents ''product'' [] 4 (snd (ensure_seed ?s))) = Inr ?items"
    by code_simp
  have one: "\<exists>p. featured_normalize ?py [(''_id'', PObjectId ''a1''), (''title'', PStr ''Boot'')] = Inr p"
    by (simp add: featured_normalize_def ProductOut_def get_def or_None_def)
  then have ok: "\<forall>it \<in> set ?items. \<exists>p. featured_normalize ?py it = Inr p"
    by simp
  note t = conjunct2 [OF conjunct2 [OF featured_products_count [of ?s ?py]]]
  from mp [OF spec [OF t, of ?items] q]
  have "(\<forall>it \<in> set ?items. \<exists>p. featured_normalize ?py it = Inr p) \<longrightarrow>
         (\<exists>out. fst (featured_products ?py ?s) = Inr out \<and>
            length out = min 4 (length (docs (snd (ensure_seed ?s)) ''product'')))"
    by (rule conjunct2 [OF conjunct2 [OF conjunct2]])
  from mp [OF this ok]
  have r: "\<exists>out. fst (featured_products ?py ?s) = Inr out \<and>
            length out = min 4 (length (docs (snd (ensure_seed ?s)) ''product''))" .
  show ?thesis
    by (rule conjI [OF h conjI [OF q conjI [OF one r]]])
qed

theorem featured_products_count_counterexample:
  "fst (get_documents ''product'' [] 4
          (snd (ensure_seed
             \<lparr>handle = True,
                colls = [(''product'',
                          [[(''_id'', PObjectId ''a1''), (''title'', PStr ''Boot''),
                            (''price'', PFloat (Fin (- 5)))]])],
                next_id = 1, name = None, faults = [], trace = []\<rparr>))) =
     Inr [[(''_id'', PObjectId ''a1''), (''title'', PStr ''Boot''),
           (''price'', PFloat (Fin (- 5)))]] \<and>
   fst (featured_products
          \<lparr>float_big_int = \<lambda>i. None, float_str = \<lambda>s. None,
             str_float = \<lambda>f. ''nan'', str_list = \<lambda>xs. ''[]''\<rparr>
          \<lparr>handle = True,
             colls = [(''product'',
                       [[(''_id'', PObjectId ''a1''), (''title'', PStr ''Boot''),
                         (''price'', PFloat (Fin (- 5)))]])],
             next_id = 1, name = None, faults = [], trace = []\<rparr>) =
     Inl validation_error"
proof -
  let ?s = "\<lparr>handle = True,
             colls = [(''product'',
                       [[(''_id'', PObjectId ''a1''), (''title'', PStr ''Boot''),
                         (''price'', PFloat (Fin (- 5)))]])],
             next_id = 1, name = None, faults = [], trace = []\<rparr>"
  let ?py = "\<lparr>float_big_int = \<lambda>i. None, float_str = \<lambda>s. None,
              str_float = \<lambda>f. ''nan'', str_list = \<lambda>xs. ''[]''\<rparr>"
  let ?items = "[[(''_id'', PObjectId ''a1''), (''title'', PStr ''Boot''),
                  (''price'', PFloat (Fin (- 5)))]]"
  have q: "fst (get_documents ''product'' [] 4 (snd (ensure_seed ?s))) = Inr ?items"
    by (simp add: ensure_seed_def ensure_seed_try_def count_documents_def store_call_def
        get_documents_def docs_def matches_def)
  have "for_each (featured_normalize ?py) ?items [] = Inl validation_error"
    by (simp add: featured_normalize_def ProductOut_def get_def or_None_def)
  with featured_products_store [OF q, of ?py]
  have r: "fst (featured_products ?py ?s) = Inl validation_error" by simp
  show ?thesis by (rule conjI [OF q r])
qed

section \<open>The default limit and the prices returned\<close>

text \<open>
  Claim C6. A sequence that \<open>list_products\<close> returns for the default arguments,
  \<open>limit = 20\<close> and no category, has at most 20 products. In every sequence that
  \<open>list_products\<close> returns, every product has a price that is not negative; and when
  it returns one, no document that the store yielded has a negative price after
  \<open>float\<close>: a request with such a document returns no sequence.
\<close>

theorem list_products_bounds:
  "(\<forall>out. fst (list_products py 20 None s) = Inr out \<longrightarrow> length out \<le> 20) \<and>
   (\<forall>limit cat out. fst (list_products py limit cat s) = Inr out \<longrightarrow>
      (\<forall>p \<in> set out. ge0 (price p) \<and> (\<forall>r. price p = Fin r \<longrightarrow> 0 \<le> r)) \<and>
      (\<forall>items.
         fst (get_documents ''product'' (filter_dict cat) limit (snd (ensure_seed s))) = Inr items \<longrightarrow>
         (\<forall>it \<in> set items. \<forall>f. py_float py (get it ''price'' (PInt 0)) = Inr f \<longrightarrow> ge0 f)))"
proof (intro conjI allI impI ballI)
  fix out
  assume r: "fst (list_products py 20 None s) = Inr out"
  show "length out \<le> 20"
  proof (cases "fst (get_documents ''product'' (filter_dict None) 20 (snd (ensure_seed s)))")
    case (Inl e)
    from list_products_fallback [OF Inl, of py] r
    have "for_each (list_normalize py) (slice_to SAMPLE_PRODUCTS 20) [] = Inr out" by simp
    from for_each_length [OF this] show ?thesis
      by (simp add: slice_to_def length_SAMPLE_PRODUCTS)
  next
    case (Inr items)
    from list_products_store [OF Inr, of py] r
    have "for_each (list_normalize py) items [] = Inr out" by simp
    from for_each_length [OF this] get_documents_Inr [OF Inr] show ?thesis by simp
  qed
next
  fix limit cat out p
  assume "fst (list_products py limit cat s) = Inr out" and "p \<in> set out"
  then show "ge0 (price p)" by (rule list_products_ge0)
next
  fix limit cat out p r
  assume "fst (list_products py limit cat s) = Inr out" and "p \<in> set out"
  then have "ge0 (price p)" by (rule list_products_ge0)
  moreover assume "price p = Fin r"
  ultimately show "0 \<le> r" by simp
next
  fix limit cat out items it f
  assume r: "fst (list_products py limit cat s) = Inr out"
    and q: "fst (get_documents ''product'' (filter_dict cat) limit (snd (ensure_seed s))) = Inr items"
    and it: "it \<in> set items"
    and f: "py_float py (get it ''price'' (PInt 0)) = Inr f"
  from list_products_store [OF q, of py] r
  have "for_each (list_normalize py) items [] = Inr out" by simp
  from for_each_source [OF this it] obtain p where "list_normalize py it = Inr p" by blast
  with f show "ge0 f" by (auto simp: list_normalize_Inr)
qed

theorem list_products_bounds_witness:
  "fst (get_documents ''product'' (filter_dict None) 20
          (snd (ensure_seed
             \<lparr>handle = True,
                colls = [(''product'', [[(''_id'', PObjectId ''a1''), (''title'', PStr ''Boot'')]])],
                next_id = 1, name = None, faults = [], trace = []\<rparr>))) =
     Inr [[(''_id'', PObjectId ''a1''), (''title'', PStr ''Boot'')]] \<and>
   fst (list_products
          \<lparr>float_big_int = \<lambda>i. None, float_str = \<lambda>s. None,
             str_float = \<lambda>f. ''nan'', str_list = \<lambda>xs. ''[]''\<rparr>
          20 None
          \<lparr>handle = True,
             colls = [(''product'', [[(''_id'', PObjectId ''a1''), (''title'', PStr ''Boot'')]])],
             next_id = 1, name = None, faults = [], trace = []\<rparr>) =
     Inr [\<lparr>id' = Some ''a1'', title = ''Boot'', description = None, price = Fin 0,
            category = ''shoes'', in_stock = True, image' = None, brand = None,
            colors = None\<rparr>] \<and>
   length [\<lparr>id' = Some ''a1'', title = ''Boot'', description = None, price = Fin 0,
             category = ''shoes'', in_stock = True, image' = None, brand = None,
             colors = None\<rparr>] \<le> 20 \<and>
   ge0 (price \<lparr>id' = Some ''a1'', title = ''Boot'', description = None, price = Fin 0,
                 category = ''shoes'', in_stock = True, image' = None, brand = None,
                 colors = None\<rparr>)"
proof -
  let ?s = "\<lparr>handle = True,
             colls = [(''product'', [[(''_id'', PObjectId ''a1''), (''title'', PStr ''Boot'')]])],
             next_id = 1, name = None, faults = [], trace = []\<rparr>"
  let ?py = "\<lparr>float_big_int = \<lambda>i. None, float_str = \<lambda>s. None,
              str_float = \<lambda>f. ''nan'', str_list = \<lambda>xs. ''[]''\<rparr>"
  let ?items = "[[(''_id'', PObjectId ''a1''), (''title'', PStr ''Boot'')]]"
  let ?out = "[\<lparr>id' = Some ''a1'', title = ''Boot'', description = None, price = Fin 0,
                category = ''shoes'', in_stock = True, image' = None, brand = None,
                colors = None\<rparr>]"
  have q: "fst (get_documents ''product'' (filter_dict None) 20 (snd (ensure_seed ?s))) = Inr ?items"
    by code_simp
  have "for_each (list_normalize ?py) ?items [] = Inr ?out"
    by (simp add: list_normalize_def ProductOut_def get_def or_None_def)
  with list_products_store [OF q, of ?py]
  have r: "fst (list_products ?py 20 None ?s) = Inr ?out" by simp
  note t = list_products_bounds [of ?py ?s]
  have a: "length ?out \<le> 20"
    by (rule mp [OF spec [OF conjunct1 [OF t], of ?out] r])
  have b: "\<forall>p \<in> set ?out. ge0 (price p) \<and> (\<forall>r. price p = Fin r \<longrightarrow> 0 \<le> r)"
    by (rule conjunct1 [OF mp [OF spec [OF spec [OF spec [OF conjunct2 [OF t], of 20], of None], of ?out] r]])
  have c: "ge0 (price \<lparr>id' = Some ''a1'', title = ''Boot'', description = None, price = Fin 0,
                 category = ''shoes'', in_stock = True, image' = None, brand = None,
                 colors = None\<rparr>)"
    by (rule conjunct1 [OF bspec [OF b]]) simp
  show ?thesis
    by (rule conjI [OF q conjI [OF r conjI [OF a c]]])
qed

section \<open>The category filter\<close>

text \<open>
  Claim C7. The filter that \<open>list_products\<close> builds holds the key \<open>category\<close>, with
  the argument as its value, exactly when the argument is given and not empty, and no
  other key; with a handle, this filter is the one sent to the store with the limit. When
  the query with a category that is not empty succeeds, such as \<open>running\<close>, every
  product of the returned sequence has that category.
\<close>

theorem category_filter:
  "map_of (filter_dict cat) ''category'' =
     (case cat of None \<Rightarrow> None | Some c \<Rightarrow> if c = [] then None else Some (PStr c)) \<and>
   (\<forall>k. k \<noteq> ''category'' \<longrightarrow> map_of (filter_dict cat) k = None) \<and>
   (handle s \<longrightarrow>
      trace (snd (list_products py limit cat s)) =
        trace (snd (ensure_seed s)) @ [Find ''product'' (filter_dict cat) limit]) \<and>
   (\<forall>c items out.
      c \<noteq> [] \<and>
      fst (get_documents ''product'' (filter_dict (Some c)) limit (snd (ensure_seed s))) = Inr items \<and>
      fst (list_products py limit (Some c) s) = Inr out \<longrightarrow>
      (\<forall>p \<in> set out. category p = c))"
proof (intro conjI allI impI ballI)
  show "map_of (filter_dict cat) ''category'' =
     (case cat of None \<Rightarrow> None | Some c \<Rightarrow> if c = [] then None else Some (PStr c))"
    by (simp add: filter_dict_def split: option.splits)
next
  fix k :: string
  assume "k \<noteq> ''category''"
  then show "map_of (filter_dict cat) k = None"
    by (simp add: filter_dict_def split: option.splits)
next
  assume "handle s"
  then show "trace (snd (list_products py limit cat s)) =
        trace (snd (ensure_seed s)) @ [Find ''product'' (filter_dict cat) limit]"
    by (rule list_products_trace)
next
  fix c items out p
  assume a: "c \<noteq> [] \<and>
      fst (get_documents ''product'' (filter_dict (Some c)) limit (snd (ensure_seed s))) = Inr items \<and>
      fst (list_products py limit (Some c) s) = Inr out"
    and p: "p \<in> set out"
  from a have c: "c \<noteq> []"
    and q: "fst (get_documents ''product'' (filter_dict (Some c)) limit (snd (ensure_seed s))) = Inr items"
    and r: "fst (list_products py limit (Some c) s) = Inr out"
    by simp_all
  from list_products_store [OF q, of py] r
  have "for_each (list_normalize py) items [] = Inr out" by simp
  from for_each_member [OF this p]
  obtain it where it: "it \<in> set items" and n: "list_normalize py it = Inr p" by blast
  from get_documents_Inr [OF q] it
  have "matches (filter_dict (Some c)) it" by (auto dest: in_set_takeD)
  with c have "map_of it ''category'' = Some (PStr c)"
    by (simp add: matches_def filter_dict_def)
  then have "get it ''category'' (PStr ''shoes'') = PStr c" by (simp add: get_def)
  with n show "category p = c" by (simp add: list_normalize_Inr)
qed

theorem category_filter_witness:
  "''running'' \<noteq> [] \<and>
   fst (get_documents ''product'' (filter_dict (Some ''running'')) 20
          (snd (ensure_seed
             \<lparr>handle = True,
                colls = [(''product'',
                          [[(''_id'', PObjectId ''a1''), (''title'', PStr ''Boot''),
                            (''category'', PStr ''trail'')],
                           [(''_id'', PObjectId ''a2''), (''title'', PStr ''Dash''),
                            (''category'', PStr ''running'')]])],
                next_id = 2, name = None, faults = [], trace = []\<rparr>))) =
     Inr [[(''_id'', PObjectId ''a2''), (''title'', PStr ''Dash''),
           (''category'', PStr ''running'')]] \<and>
   fst (list_products
          \<lparr>float_big_int = \<lambda>i. None, float_str = \<lambda>s. None,
             str_float = \<lambda>f. ''nan'', str_list = \<lambda>xs. ''[]''\<rparr>
          20 (Some ''running'')
          \<lparr>handle = True,
             colls = [(''product'',
                       [[(''_id'', PObjectId ''a1''), (''title'', PStr ''Boot''),
                         (''category'', PStr ''trail'')],
                        [(''_id'', PObjectId ''a2''), (''title'', PStr ''Dash''),
                         (''category'', PStr ''running'')]])],
             next_id = 2, name = None, faults = [], trace = []\<rparr>) =
     Inr [\<lparr>id' = Some ''a2'', title = ''Dash'', description = None, price = Fin 0,
            category = ''running'', in_stock = True, image' = None, brand = None,
            colors = None\<rparr>] \<and>
   category \<lparr>id' = Some ''a2'', title = ''Dash'', description = None, price = Fin 0,
               category = ''running'', in_stock = True, image' = None, brand = None,
               colors = None\<rparr> = ''running''"
proof -
  let ?s = "\<lparr>handle = True,
             colls = [(''product'',
                       [[(''_id'', PObjectId ''a1''), (''title'', PStr ''Boot''),
                         (''category'', PStr ''trail'')],
                        [(''_id'', PObjectId ''a2''), (''title'', PStr ''Dash''),
                         (''category'', PStr ''running'')]])],
             next_id = 2, name = None, faults = [], trace = []\<rparr>"
  let ?py = "\<lparr>float_big_int = \<lambda>i. None, float_str = \<lambda>s. None,
              str_float = \<lambda>f. ''nan'', str_list = \<lambda>xs. ''[]''\<rparr>"
  let ?items = "[[(''_id'', PObjectId ''a2''), (''title'', PStr ''Dash''),
                  (''category'', PStr ''running'')]]"
  let ?out = "[\<lparr>id' = Some ''a2'', title = ''Dash'', description = None, price = Fin 0,
                category = ''running'', in_stock = True, image' = None, brand = None,
                colors = None\<rparr>]"
  have c: "''running'' \<noteq> []" by simp
  have q: "fst (get_documents ''product'' (filter_dict (Some ''running'')) 20
                 (snd (ensure_seed ?s))) = Inr ?items"
    by code_simp
  have "for_each (list_normalize ?py) ?items [] = Inr ?out"
    by (simp add: list_normalize_def ProductOut_def get_def or_None_def)
  with list_products_store [OF q, of ?py]
  have r: "fst (list_products ?py 20 (Some ''running'') ?s) = Inr ?out" by simp
  note t = conjunct2 [OF conjunct2 [OF conjunct2 [OF category_filter [of None ?s ?py 20]]]]
  have b: "\<forall>p \<in> set ?out. category p = ''running''"
    by (rule mp [OF spec [OF spec [OF spec [OF t, of "''running''"], of ?items], of ?out]
          conjI [OF c conjI [OF q r]]])
  have d: "category \<lparr>id' = Some ''a2'', title = ''Dash'', description = None, price = Fin 0,
               category = ''running'', in_stock = True, image' = None, brand = None,
               colors = None\<rparr> = ''running''"
    by (rule bspec [OF b]) simp
  show ?thesis
    by (rule conjI [OF c conjI [OF q conjI [OF r d]]])
qed

section \<open>The diagnostic endpoint never fails\<close>

text \<open>
  Claim C8. \<open>test_database\<close> returns a response in every state of the store, with or
  without a handle and whatever the store raises, and for every environment. In the
  response \<open>backend\<close>, \<open>database\<close>, \<open>database_url\<close>, \<open>database_name\<close> and
  \<open>connection_status\<close> are strings, and \<open>collections\<close> is a list of at most 10 names.
\<close>

theorem test_database_never_fails:
  "\<exists>r. fst (test_database env s) = Inr r \<and>
       (\<exists>a b c d e. backend r = PStr a \<and> database r = PStr b \<and> database_url r = PStr c \<and>
          database_name r = PStr d \<and> connection_status r = PStr e) \<and>
       (\<exists>cs. collections r = PList (map PStr cs) \<and> length cs \<le> 10)"
proof (cases "test_try initial_response s")
  case (fields res r s')
  from test_try_shape [of s] fields
  have shape: "(\<exists>a. backend r = PStr a) \<and> (\<exists>b. database r = PStr b) \<and>
      (\<exists>e. connection_status r = PStr e) \<and>
      (\<exists>cs. collections r = PList (map PStr cs) \<and> length cs \<le> 10)"
    by simp
  show ?thesis
  proof (cases res)
    case (Inl e)
    with fields shape show ?thesis by (simp add: test_database_def Let_def)
  next
    case (Inr u)
    with fields shape show ?thesis by (simp add: test_database_def Let_def)
  qed
qed

theorem test_database_never_fails_witness:
  "\<exists>r. fst (test_database
             (\<lambda>k. if k = ''DATABASE_URL'' then Some ''mongodb://localhost:27017'' else None)
             \<lparr>handle = True, colls = [], next_id = 0, name = Some (PStr ''shop''),
                faults = [None, None, Some ''not authorized''], trace = []\<rparr>) = Inr r \<and>
       (\<exists>a b c d e. backend r = PStr a \<and> database r = PStr b \<and> database_url r = PStr c \<and>
          database_name r = PStr d \<and> connection_status r = PStr e) \<and>
       (\<exists>cs. collections r = PList (map PStr cs) \<and> length cs \<le> 10)"
  by (rule test_database_never_fails)

section \<open>The two copies of the normalization\<close>

text \<open>
  Claim C9. The block that \<open>list_products\<close> runs for one raw document and the block
  that \<open>featured_products\<close> runs for it give the same result, product or exception, and so
  do the two loops on every sequence of documents.
\<close>

theorem same_normalization:
  "list_normalize py it = featured_normalize py it \<and>
   for_each (list_normalize py) items [] = for_each (featured_normalize py) items []"
proof -
  have "list_normalize py = featured_normalize py"
    by (rule ext) (simp add: list_normalize_def featured_normalize_def)
  then show ?thesis by simp
qed
theorem same_normalization_witness:
  "list_normalize
     \<lparr>float_big_int = \<lambda>i. None, float_str = \<lambda>s. None,
        str_float = \<lambda>f. ''nan'', str_list = \<lambda>xs. ''[]''\<rparr>
     [(''_id'', PObjectId ''a1''), (''title'', PStr ''Boot''), (''price'', PNone)] =
   featured_normalize
     \<lparr>float_big_int = \<lambda>i. None, float_str = \<lambda>s. None,
        str_float = \<lambda>f. ''nan'', str_list = \<lambda>xs. ''[]''\<rparr>
     [(''_id'', PObjectId ''a1''), (''title'', PStr ''Boot''), (''price'', PNone)]"
  by (rule conjunct1 [OF same_normalization])

section \<open>The fallback slice for limits that are not positive\<close>

text \<open>
  Claim C10. When the query of the store raises, \<open>list_products\<close> with \<open>limit = 0\<close>
  returns the empty sequence, and with a negative limit it returns the normalization of
  all samples but the last \<open>-limit\<close> of them, as the slice \<open>SAMPLE_PRODUCTS[:limit]\<close>
  does; with \<open>limit = -1\<close> these are the first three of the four samples.
\<close>

theorem fallback_slice:
  assumes "fst (get_documents ''product'' (filter_dict cat) limit (snd (ensure_seed s))) = Inl e"
  shows "(limit = 0 \<longrightarrow> fst (list_products py limit cat s) = Inr []) \<and>
         (limit < 0 \<longrightarrow>
            fst (list_products py limit cat s) =
              for_each (list_normalize py)
                (take (length SAMPLE_PRODUCTS - nat (- limit)) SAMPLE_PRODUCTS) [] \<and>
            (\<exists>out. fst (list_products py limit cat s) = Inr out \<and>
                   length out = 4 - nat (- limit))) \<and>
         (limit = - 1 \<longrightarrow>
            (\<exists>out. fst (list_products py limit cat s) = Inr out \<and> length out = 3 \<and>
                   for_each (list_normalize py) (take 3 SAMPLE_PRODUCTS) [] = Inr out))"
proof -
  note fb = list_products_fallback [OF assms, of py]
  have zero: "limit = 0 \<longrightarrow> fst (list_products py limit cat s) = Inr []"
    using fb by (auto simp: slice_to_def)
  have neg: "limit < 0 \<longrightarrow>
            fst (list_products py limit cat s) =
              for_each (list_normalize py)
                (take (length SAMPLE_PRODUCTS - nat (- limit)) SAMPLE_PRODUCTS) [] \<and>
            (\<exists>out. fst (list_products py limit cat s) = Inr out \<and>
                   length out = 4 - nat (- limit))"
  proof
    assume n: "limit < 0"
    have eq: "fst (list_products py limit cat s) =
        for_each (list_normalize py)
          (take (length SAMPLE_PRODUCTS - nat (- limit)) SAMPLE_PRODUCTS) []"
      using fb by (simp add: slice_to_neg [OF n])
    from sample_prefix_list [of py "length SAMPLE_PRODUCTS - nat (- limit)"]
    obtain out where "for_each (list_normalize py)
          (take (length SAMPLE_PRODUCTS - nat (- limit)) SAMPLE_PRODUCTS) [] = Inr out"
      and "length out = min (length SAMPLE_PRODUCTS - nat (- limit)) 4"
      by blast
    then have "fst (list_products py limit cat s) = Inr out \<and> length out = 4 - nat (- limit)"
      using eq by (simp add: length_SAMPLE_PRODUCTS)
    with eq show "fst (list_products py limit cat s) =
              for_each (list_normalize py)
                (take (length SAMPLE_PRODUCTS - nat (- limit)) SAMPLE_PRODUCTS) [] \<and>
            (\<exists>out. fst (list_products py limit cat s) = Inr out \<and>
                   length out = 4 - nat (- limit))"
      by blast
  qed
  have one: "limit = - 1 \<longrightarrow>
            (\<exists>out. fst (list_products py limit cat s) = Inr out \<and> length out = 3 \<and>
                   for_each (list_normalize py) (take 3 SAMPLE_PRODUCTS) [] = Inr out)"
  proof
    assume l: "limit = - 1"
    have eq: "fst (list_products py limit cat s) =
        for_each (list_normalize py) (take 3 SAMPLE_PRODUCTS) []"
      using fb l by (simp add: slice_to_def length_SAMPLE_PRODUCTS)
    from sample_prefix_list [of py 3]
    obtain out where "for_each (list_normalize py) (take 3 SAMPLE_PRODUCTS) [] = Inr out"
      and "length out = 3" by auto
    with eq show "\<exists>out. fst (list_products py limit cat s) = Inr out \<and> length out = 3 \<and>
                   for_each (list_normalize py) (take 3 SAMPLE_PRODUCTS) [] = Inr out"
      by simp
  qed
  from zero neg one show ?thesis by (intro conjI)
qed

theorem fallback_slice_witness:
  "fst (get_documents ''product'' (filter_dict (Some ''running'')) (- 1)
          (snd (ensure_seed \<lparr>handle = True, colls = [], next_id = 0, name = None,
                              faults = [Some ''timed out'', Some ''timed out''], trace = []\<rparr>))) =
     Inl (Error StoreError ''timed out'') \<and>
   (\<exists>out. fst (list_products
                 \<lparr>float_big_int = \<lambda>i. None, float_str = \<lambda>s. None,
                    str_float = \<lambda>f. ''nan'', str_list = \<lambda>xs. ''[]''\<rparr>
                 (- 1) (Some ''running'')
                 \<lparr>handle = True, colls = [], next_id = 0, name = None,
                    faults = [Some ''timed out'', Some ''timed out''], trace = []\<rparr>) = Inr out \<and>
          length out = 3 \<and>
          for_each
            (list_normalize \<lparr>float_big_int = \<lambda>i. None, float_str = \<lambda>s. None,
                             str_float = \<lambda>f. ''nan'', str_list = \<lambda>xs. ''[]''\<rparr>)
            (take 3 SAMPLE_PRODUCTS) [] = Inr out)"
proof -
  have q: "fst (get_documents ''product'' (filter_dict (Some ''running'')) (- 1)
          (snd (ensure_seed \<lparr>handle = True, colls = [], next_id = 0, name = None,
                              faults = [Some ''timed out'', Some ''timed out''], trace = []\<rparr>))) =
     Inl (Error StoreError ''timed out'')"
    by code_simp
  from fallback_slice [OF q] have "\<exists>out. fst (list_products
                 \<lparr>float_big_int = \<lambda>i. None, float_str = \<lambda>s. None,
                    str_float = \<lambda>f. ''nan'', str_list = \<lambda>xs. ''[]''\<rparr>
                 (- 1) (Some ''running'')
                 \<lparr>handle = True, colls = [], next_id = 0, name = None,
                    faults = [Some ''timed out'', Some ''timed out''], trace = []\<rparr>) = Inr out \<and>
          length out = 3 \<and>
          for_each
            (list_normalize \<lparr>float_big_int = \<lambda>i. None, float_str = \<lambda>s. None,
                             str_float = \<lambda>f. ''nan'', str_list = \<lambda>xs. ''[]''\<rparr>)
            (take 3 SAMPLE_PRODUCTS) [] = Inr out"
    by blast
  with q show ?thesis by (rule conjI)
qed

end
